theory Spec2Isabelle
  imports Main "HOL-Library.Char_ord" "HOL-Library.List_Lexorder" "HOL-Library.AList"
begin

section \<open>Python text primitives\<close>

text \<open>
  The collector \<^verbatim>\<open>chinfo.py\<close> works on Python \<^verbatim>\<open>str\<close> values. A \<^typ>\<open>char\<close> of this
  development stands for one code point below 256, so a \<^typ>\<open>string\<close> is a Python string
  all of whose code points are below 256. The character classes below are the ones Python 3
  uses for these code points: \<^verbatim>\<open>str.isspace\<close> (also the regular expression class
  \<^verbatim>\<open>\s\<close> and the separators of \<^verbatim>\<open>str.split()\<close>), the line boundaries of
  \<^verbatim>\<open>str.splitlines\<close>, \<^verbatim>\<open>\d\<close>, \<^verbatim>\<open>\w\<close> and \<^verbatim>\<open>str.lower\<close>.
\<close>

definition isspace :: "char \<Rightarrow> bool" where
  "isspace c = (c \<in> set [CHR 0x09, CHR 0x0A, CHR 0x0B, CHR 0x0C, CHR 0x0D, CHR 0x1C, CHR 0x1D,
      CHR 0x1E, CHR 0x1F, CHR 0x20, CHR 0x85, CHR 0xA0])"

definition is_linebreak :: "char \<Rightarrow> bool" where
  "is_linebreak c = (c \<in> set [CHR 0x0A, CHR 0x0B, CHR 0x0C, CHR 0x0D, CHR 0x1C, CHR 0x1D,
      CHR 0x1E, CHR 0x85])"

definition in_range :: "nat \<Rightarrow> nat \<Rightarrow> char \<Rightarrow> bool" where
  "in_range lo hi c = (lo \<le> of_char c \<and> (of_char c :: nat) \<le> hi)"

text \<open>\<^verbatim>\<open>\d\<close>: the decimal digits; below 256 these are \<^verbatim>\<open>0\<close> to \<^verbatim>\<open>9\<close>.\<close>

definition isdigit :: "char \<Rightarrow> bool" where
  "isdigit c = in_range 48 57 c"

text \<open>
  \<^verbatim>\<open>\w\<close>: the underscore and every alphanumeric code point. Below 256 the alphanumeric
  ones are the ASCII letters and digits, the ordinal indicators and the micro sign, the
  superscript digits and vulgar fractions, and the accented letters (all of 0xC0 to 0xFF
  but the multiplication and division signs).
\<close>

definition is_word :: "char \<Rightarrow> bool" where
  "is_word c = (c = CHR ''_'' \<or> in_range 48 57 c \<or> in_range 65 90 c \<or> in_range 97 122 c
      \<or> c \<in> set [CHR 0xAA, CHR 0xB2, CHR 0xB3, CHR 0xB5, CHR 0xB9, CHR 0xBA, CHR 0xBC, CHR 0xBD,
          CHR 0xBE]
      \<or> in_range 192 214 c \<or> in_range 216 246 c \<or> in_range 248 255 c)"

text \<open>\<^verbatim>\<open>[0-9a-f]\<close>, as written and under \<^verbatim>\<open>re.IGNORECASE\<close>.\<close>

definition is_hex_lower :: "char \<Rightarrow> bool" where
  "is_hex_lower c = (in_range 48 57 c \<or> in_range 97 102 c)"

definition is_hex :: "char \<Rightarrow> bool" where
  "is_hex c = (in_range 48 57 c \<or> in_range 97 102 c \<or> in_range 65 70 c)"

text \<open>
  \<^verbatim>\<open>str.lower\<close>: the upper-case letters below 256 are \<^verbatim>\<open>A\<close> to \<^verbatim>\<open>Z\<close> and 0xC0 to 0xDE
  without the multiplication sign 0xD7; each has its lower-case letter 32 places later.
\<close>

definition lower_char :: "char \<Rightarrow> char" where
  "lower_char c = (if in_range 65 90 c \<or> in_range 192 214 c \<or> in_range 216 222 c
      then char_of (of_char c + (32 :: nat)) else c)"

definition py_lower :: "string \<Rightarrow> string" where
  "py_lower s = map lower_char s"

definition lstrip :: "string \<Rightarrow> string" where
  "lstrip s = dropWhile isspace s"

definition rstrip :: "string \<Rightarrow> string" where
  "rstrip s = rev (dropWhile isspace (rev s))"

definition strip :: "string \<Rightarrow> string" where
  "strip s = rstrip (lstrip s)"

text \<open>\<^verbatim>\<open>s.rstrip(":")\<close> and \<^verbatim>\<open>s.strip('"')\<close>: strip every occurrence of one character.\<close>

definition rstrip_char :: "char \<Rightarrow> string \<Rightarrow> string" where
  "rstrip_char x s = rev (dropWhile (\<lambda>c. c = x) (rev s))"

definition strip_char :: "char \<Rightarrow> string \<Rightarrow> string" where
  "strip_char x s = rstrip_char x (dropWhile (\<lambda>c. c = x) s)"

definition startswith :: "string \<Rightarrow> string \<Rightarrow> bool" where
  "startswith s pre = (take (length pre) s = pre)"

definition endswith :: "string \<Rightarrow> string \<Rightarrow> bool" where
  "endswith s suf = (length suf \<le> length s \<and> drop (length s - length suf) s = suf)"

text \<open>\<^verbatim>\<open>sub in s\<close> on strings: \<^verbatim>\<open>sub\<close> occurs in \<^verbatim>\<open>s\<close> as a contiguous substring.\<close>

fun substring_in :: "string \<Rightarrow> string \<Rightarrow> bool" where
  "substring_in sub [] = (sub = [])"
| "substring_in sub (c # cs) = (startswith (c # cs) sub \<or> substring_in sub cs)"

declare substring_in.simps [simp del]

text \<open>
  \<^verbatim>\<open>str.splitlines()\<close>: a line ends at a line boundary (\<^verbatim>\<open>\r\n\<close> counts as one), the
  boundaries are dropped, and a boundary at the very end opens no further line.
\<close>

fun splitlines :: "string \<Rightarrow> string list" where
  "splitlines [] = []"
| "splitlines (c # cs) =
    (if c = CHR 0x0D then
       (case cs of
          [] \<Rightarrow> [[]]
        | d # ds \<Rightarrow> if d = CHR 0x0A then [] # splitlines ds else [] # splitlines cs)
     else if is_linebreak c then [] # splitlines cs
     else (case splitlines cs of [] \<Rightarrow> [[c]] | l # ls \<Rightarrow> (c # l) # ls))"

text \<open>\<^verbatim>\<open>str.split()\<close>: the maximal runs of characters that are not whitespace.\<close>

function split_ws :: "string \<Rightarrow> string list" where
  "split_ws s =
    (let t = dropWhile isspace s
     in if t = [] then []
        else takeWhile (\<lambda>c. \<not> isspace c) t # split_ws (dropWhile (\<lambda>c. \<not> isspace c) t))"
  by pat_completeness auto
termination
proof (relation "measure length", goal_cases)
  case 1
  show ?case by simp
next
  case (2 s t)
  then have "\<not> isspace (hd t)" and "t \<noteq> []"
    using hd_dropWhile [of isspace s] by auto
  then have "length (dropWhile (\<lambda>c. \<not> isspace c) t) < length t"
    by (cases t) (auto intro: le_imp_less_Suc length_dropWhile_le)
  moreover have "length t \<le> length s"
    using 2 by (simp add: length_dropWhile_le)
  ultimately show ?case by simp
qed

declare split_ws.simps [simp del]

text \<open>\<^verbatim>\<open>s.split(sep)\<close> for a one-character separator; the result is never empty.\<close>

fun split_char :: "char \<Rightarrow> string \<Rightarrow> string list" where
  "split_char sep [] = [[]]"
| "split_char sep (c # cs) =
    (if c = sep then [] # split_char sep cs
     else (case split_char sep cs of [] \<Rightarrow> [[c]] | w # ws \<Rightarrow> (c # w) # ws))"

text \<open>\<^verbatim>\<open>s.split(sep, 1)\<close>: split at the first separator only.\<close>

definition split1 :: "char \<Rightarrow> string \<Rightarrow> string list" where
  "split1 sep s =
    (if sep \<in> set s
     then [takeWhile (\<lambda>c. c \<noteq> sep) s, tl (dropWhile (\<lambda>c. c \<noteq> sep) s)]
     else [s])"

text \<open>
  \<^verbatim>\<open>int(s)\<close> in base 10: whitespace around the literal is ignored, one sign may come first,
  then groups of digits separated by single underscores. \<^const>\<open>None\<close> stands for
  \<^verbatim>\<open>ValueError\<close>. The whitespace that \<^verbatim>\<open>int\<close> ignores is narrower than that of
  \<^verbatim>\<open>str.strip\<close>: the six whitespace characters of C and the whitespace beyond ASCII, but
  not the separators 0x1C to 0x1F. A literal with more than 4300 digits is refused with
  \<^verbatim>\<open>ValueError\<close> as well, leading zeros counted and underscores not: this is the limit
  of CPython since version 3.11 (\<^verbatim>\<open>sys.int_info.default_max_str_digits\<close>), which the
  collector does not change.
\<close>

definition max_str_digits :: nat where
  "max_str_digits = 4300"

definition int_space :: "char \<Rightarrow> bool" where
  "int_space c = (c \<in> set [CHR 0x09, CHR 0x0A, CHR 0x0B, CHR 0x0C, CHR 0x0D, CHR 0x20,
      CHR 0x85, CHR 0xA0])"

fun digit_groups :: "string \<Rightarrow> bool" where
  "digit_groups [] = False"
| "digit_groups [c] = isdigit c"
| "digit_groups (c # d # rest) =
    (isdigit c \<and> (if d = CHR ''_'' then digit_groups rest else digit_groups (d # rest)))"

definition digits_val :: "string \<Rightarrow> int" where
  "digits_val ds = foldl (\<lambda>a c. 10 * a + (int (of_char c) - 48)) 0 ds"

definition py_int :: "string \<Rightarrow> int option" where
  "py_int s =
    (let t = rev (dropWhile int_space (rev (dropWhile int_space s)));
         neg = (t \<noteq> [] \<and> hd t = CHR ''-'');
         body = (if t \<noteq> [] \<and> (hd t = CHR ''-'' \<or> hd t = CHR ''+'') then tl t else t);
         digits = filter (\<lambda>c. c \<noteq> CHR ''_'') body
     in if digit_groups body \<and> length digits \<le> max_str_digits
        then Some ((if neg then - 1 else 1) * digits_val digits)
        else None)"

text \<open>\<^verbatim>\<open>str.isdigit\<close>: besides the decimal digits, the superscript digits count.\<close>

definition str_isdigit :: "string \<Rightarrow> bool" where
  "str_isdigit s = (s \<noteq> [] \<and> list_all (\<lambda>c. isdigit c \<or> c \<in> set [CHR 0xB2, CHR 0xB3, CHR 0xB9]) s)"

text \<open>
  \<^verbatim>\<open>re.search\<close>: the leftmost position at which the pattern matches. The argument \<open>m\<close> is
  the pattern anchored at the start of the text it is given; it returns the captured group.
  None of the searched patterns of the collector looks behind the position it starts at.
\<close>

fun re_search :: "(string \<Rightarrow> 'a option) \<Rightarrow> string \<Rightarrow> 'a option" where
  "re_search m [] = m []"
| "re_search m (c # cs) = (case m (c # cs) of Some g \<Rightarrow> Some g | None \<Rightarrow> re_search m cs)"

section \<open>The host: external fact sources\<close>

text \<open>
  Everything the collector reads from outside is a field of the record \<open>host\<close>: the
  \<^verbatim>\<open>platform\<close> module, the standard output of a shell command (after decoding and newline
  translation, or the failure of the command), the decoded text of a file before newline
  translation (or the failure to read it), the environment, \<^verbatim>\<open>socket.gethostname\<close> and
  \<^verbatim>\<open>getpass.getuser\<close>.
\<close>

datatype cmd_result = Failed | Stdout string

record host =
  platform_system :: string
  platform_release :: string
  platform_version :: string
  platform_machine :: string
  gethostname :: "string option"
  getuser :: "string option"
  environ :: "string \<Rightarrow> string option"
  shell :: "string \<Rightarrow> cmd_result"
  files :: "string \<Rightarrow> string option"

text \<open>\<^verbatim>\<open>run_command\<close>: the stripped standard output, or the empty string on any failure.\<close>

definition run_command :: "host \<Rightarrow> string \<Rightarrow> string" where
  "run_command h command = (case shell h command of Failed \<Rightarrow> [] | Stdout s \<Rightarrow> strip s)"

text \<open>\<^verbatim>\<open>system = platform.system().lower()\<close>, as every collector computes it.\<close>

definition system :: "host \<Rightarrow> string" where
  "system h = py_lower (platform_system h)"

section \<open>Identity\<close>

definition get_hostname :: "host \<Rightarrow> string" where
  "get_hostname h = (case gethostname h of None \<Rightarrow> [] | Some n \<Rightarrow> n)"

definition get_current_user :: "host \<Rightarrow> string" where
  "get_current_user h =
    (case getuser h of
       Some u \<Rightarrow> u
     | None \<Rightarrow> (case environ h ''USER'' of None \<Rightarrow> [] | Some u \<Rightarrow> u))"

text \<open>The loop of \<^verbatim>\<open>get_domain_name\<close> over the outputs of the three POSIX commands.\<close>

fun domain_loop :: "host \<Rightarrow> string list \<Rightarrow> string option" where
  "domain_loop h [] = None"
| "domain_loop h (cmd # cmds) =
    (let output = run_command h cmd
     in if output \<noteq> [] \<and> py_lower output \<notin> set [''(none)'', ''unknown'']
        then Some (strip output)
        else domain_loop h cmds)"

definition get_domain_name :: "host \<Rightarrow> string option" where
  "get_domain_name h =
    (if system h = ''windows'' then
       (let output = run_command h ''wmic computersystem get domain'';
            lines = map strip (filter (\<lambda>line. strip line \<noteq> []) (splitlines output));
            domain = (if length lines \<ge> 2 then Some (last lines) else None)
        in if domain = None \<or> domain = Some [] then environ h ''USERDOMAIN'' else domain)
     else domain_loop h [''hostname -d'', ''dnsdomainname'', ''domainname''])"

section \<open>Network interfaces\<close>

text \<open>
  An interface is a Python dictionary with the optional keys \<^verbatim>\<open>name\<close>, \<^verbatim>\<open>mac\<close>,
  \<^verbatim>\<open>ipv4\<close> and \<^verbatim>\<open>ipv6\<close>: a field is \<^const>\<open>None\<close> when the key is missing. The empty
  dictionary \<^verbatim>\<open>{}\<close> is the only one that is false in a condition.
\<close>

record interface =
  name :: "string option"
  mac :: "string option"
  ipv4 :: "string list option"
  ipv6 :: "string list option"

definition empty_dict :: interface where
  "empty_dict = \<lparr>name = None, mac = None, ipv4 = None, ipv6 = None\<rparr>"

text \<open>\<^verbatim>\<open>adapter.setdefault("mac", value)\<close>: an existing MAC is kept.\<close>

definition setdefault_mac :: "string \<Rightarrow> interface \<Rightarrow> interface" where
  "setdefault_mac v a = (case mac a of None \<Rightarrow> a\<lparr>mac := Some v\<rparr> | Some _ \<Rightarrow> a)"

text \<open>\<^verbatim>\<open>adapter.setdefault("ipv4", []).append(ip)\<close>, and the same for \<^verbatim>\<open>ipv6\<close>.\<close>

definition append_ipv4 :: "string \<Rightarrow> interface \<Rightarrow> interface" where
  "append_ipv4 ip a = a\<lparr>ipv4 := Some ((case ipv4 a of None \<Rightarrow> [] | Some l \<Rightarrow> l) @ [ip])\<rparr>"

definition append_ipv6 :: "string \<Rightarrow> interface \<Rightarrow> interface" where
  "append_ipv6 ip a = a\<lparr>ipv6 := Some ((case ipv6 a of None \<Rightarrow> [] | Some l \<Rightarrow> l) @ [ip])\<rparr>"

text \<open>
  The state of the Windows and BSD loops is the pair of the accumulator \<^verbatim>\<open>adapter\<close> and the
  list \<^verbatim>\<open>interfaces\<close>. \<open>flush\<close> is
  \<^verbatim>\<open>if adapter: interfaces.append(adapter); adapter = {}\<close>.
\<close>

definition flush :: "interface \<times> interface list \<Rightarrow> interface \<times> interface list" where
  "flush st =
    (case st of (adapter, interfaces) \<Rightarrow>
       if adapter \<noteq> empty_dict then (empty_dict, interfaces @ [adapter]) else (adapter, interfaces))"

subsection \<open>Windows: \<^verbatim>\<open>ipconfig /all\<close>\<close>

text \<open>
  The test for the start of an adapter section:
  \<^verbatim>\<open>line.lstrip() == line and line.strip().endswith(":")\<close>.
\<close>

definition is_adapter_header :: "string \<Rightarrow> bool" where
  "is_adapter_header line = (lstrip line = line \<and> endswith (strip line) '':'')"

definition windows_line :: "string \<Rightarrow> interface \<times> interface list \<Rightarrow> interface \<times> interface list" where
  "windows_line line st =
    (if strip line = [] then flush st
     else if is_adapter_header line then
       (case flush st of (adapter, interfaces) \<Rightarrow>
          (adapter\<lparr>name := Some (rstrip_char CHR '':'' (strip line))\<rparr>, interfaces))
     else
       (let parts = split1 CHR '':'' line
        in if length parts \<noteq> 2 then st
           else
             (let key = strip (parts ! 0); v = strip (parts ! 1); key_lower = py_lower key
              in case st of (adapter, interfaces) \<Rightarrow>
                   if substring_in ''physical address'' key_lower
                   then (setdefault_mac v adapter, interfaces)
                   else if key_lower \<in> set [''ipv4 address'', ''ip address'',
                                             ''autoconfiguration ipv4 address'']
                   then (append_ipv4 (strip (hd (split_char CHR ''('' v))) adapter, interfaces)
                   else if substring_in ''ipv6 address'' key_lower
                   then (append_ipv6 (strip (hd (split_char CHR ''('' v))) adapter, interfaces)
                   else st)))"

definition parse_ip_config_windows :: "host \<Rightarrow> interface list" where
  "parse_ip_config_windows h =
    (let output = run_command h ''ipconfig /all''
     in if output = [] then []
        else (case fold windows_line (splitlines output) (empty_dict, []) of
                (adapter, interfaces) \<Rightarrow>
                  if adapter \<noteq> empty_dict then interfaces @ [adapter] else interfaces))"

subsection \<open>Linux: \<^verbatim>\<open>ip -o addr show\<close>\<close>

text \<open>
  The pattern \<^verbatim>\<open>link/\w+ ([0-9a-f:]{17}|[0-9a-f]{2}(?:-[0-9a-f]{2}){5})\<close> under
  \<^verbatim>\<open>re.IGNORECASE\<close>, anchored. After \<^verbatim>\<open>link/\<close> the word characters are taken greedily; a
  shorter run cannot be followed by the space, so there is nothing to backtrack to. Both
  alternatives capture 17 characters: either 17 hexadecimal digits or colons, or six pairs of
  hexadecimal digits separated by dashes.
\<close>

definition dash_mac :: "string \<Rightarrow> bool" where
  "dash_mac g =
    (length g = 17 \<and>
     list_all (\<lambda>i. if i mod 3 = 2 then g ! i = CHR ''-'' else is_hex (g ! i)) [0..<17])"

definition m_link_mac :: "string \<Rightarrow> string option" where
  "m_link_mac s =
    (if length s \<ge> 5 \<and> py_lower (take 5 s) = ''link/'' then
       (let r = drop 5 s; w = takeWhile is_word r; r' = dropWhile is_word r
        in if w \<noteq> [] \<and> startswith r' '' '' then
             (let g = take 17 (tl r')
              in if length g = 17 \<and> list_all (\<lambda>c. is_hex c \<or> c = CHR '':'') g then Some g
                 else if dash_mac g then Some g
                 else None)
           else None)
     else None)"

text \<open>
  \<^verbatim>\<open>iface_map\<close> is a dictionary in insertion order whose values are changed in place: an
  association list. \<open>setdefault\<close> returns the dictionary and the value now stored under the
  key; \<^const>\<open>AList.update\<close> stores a changed value at the place of the old one.
\<close>

definition setdefault :: "string \<Rightarrow> interface \<Rightarrow> (string \<times> interface) list
    \<Rightarrow> (string \<times> interface) list \<times> interface" where
  "setdefault k d m = (case map_of m k of None \<Rightarrow> (m @ [(k, d)], d) | Some v \<Rightarrow> (m, v))"

text \<open>
  The body of the loop once the fields of the line are read: \<^verbatim>\<open>setdefault\<close> creates the
  entry of the interface with its name, then the family decides what is recorded.
\<close>

definition linux_record :: "string \<Rightarrow> string \<Rightarrow> string \<Rightarrow> string
    \<Rightarrow> (string \<times> interface) list \<Rightarrow> (string \<times> interface) list" where
  "linux_record line ifname family ip iface_map =
    (case setdefault ifname (empty_dict\<lparr>name := Some ifname\<rparr>) iface_map of
       (iface_map', iface) \<Rightarrow>
         if family = ''link'' then
           (case re_search m_link_mac line of
              Some g \<Rightarrow> AList.update ifname (iface\<lparr>mac := Some g\<rparr>) iface_map'
            | None \<Rightarrow> iface_map')
         else if family = ''inet'' then
           AList.update ifname (append_ipv4 ip iface) iface_map'
         else if family = ''inet6'' then
           AList.update ifname (append_ipv6 ip iface) iface_map'
         else iface_map')"

definition linux_line :: "string \<Rightarrow> (string \<times> interface) list \<Rightarrow> (string \<times> interface) list" where
  "linux_line line iface_map =
    (let parts = split_ws line
     in if length parts < 4 then iface_map
        else
          (let ifname = parts ! 1; family = parts ! 2; addr_mask = parts ! 3;
               ip = hd (split_char CHR ''/'' addr_mask)
           in linux_record line ifname family ip iface_map))"

subsection \<open>BSD and macOS: \<^verbatim>\<open>ifconfig -a\<close>\<close>

text \<open>
  \<^verbatim>\<open>re.match(r"^(\S+):", line)\<close>: the greedy \<^verbatim>\<open>\S+\<close> gives back characters up to the last
  colon of the first run of non-whitespace characters; that colon must not be the first
  character of the line. The group is the text before it.
\<close>

definition m_ifname :: "string \<Rightarrow> string option" where
  "m_ifname line =
    (let run = takeWhile (\<lambda>c. \<not> isspace c) line
     in if run \<noteq> [] \<and> CHR '':'' \<in> set (tl run)
        then Some (rev (tl (dropWhile (\<lambda>c. c \<noteq> CHR '':'') (rev run))))
        else None)"

text \<open>\<^verbatim>\<open>ether ([0-9a-f:]{17})\<close>, anchored; no flag, so lower-case digits only.\<close>

definition m_ether :: "string \<Rightarrow> string option" where
  "m_ether s =
    (if startswith s ''ether '' then
       (let g = take 17 (drop 6 s)
        in if length g = 17 \<and> list_all (\<lambda>c. is_hex_lower c \<or> c = CHR '':'') g then Some g
           else None)
     else None)"

text \<open>
  \<^verbatim>\<open>inet (\d+\.\d+\.\d+\.\d+)\<close>, anchored. A run of digits is followed by something that is
  not a digit, so each greedy \<^verbatim>\<open>\d+\<close> is the whole run.
\<close>

definition dotted_quad :: "string \<Rightarrow> string option" where
  "dotted_quad r =
    (let a = takeWhile isdigit r; r1 = dropWhile isdigit r
     in if a = [] \<or> \<not> startswith r1 ''.'' then None
        else
          (let b = takeWhile isdigit (tl r1); r2 = dropWhile isdigit (tl r1)
           in if b = [] \<or> \<not> startswith r2 ''.'' then None
              else
                (let c = takeWhile isdigit (tl r2); r3 = dropWhile isdigit (tl r2)
                 in if c = [] \<or> \<not> startswith r3 ''.'' then None
                    else
                      (let d = takeWhile isdigit (tl r3)
                       in if d = [] then None
                          else Some (a @ ''.'' @ b @ ''.'' @ c @ ''.'' @ d)))))"

definition m_inet :: "string \<Rightarrow> string option" where
  "m_inet s = (if startswith s ''inet '' then dotted_quad (drop 5 s) else None)"

text \<open>\<^verbatim>\<open>inet6 ([0-9a-f:]+)\<close>, anchored.\<close>

definition m_inet6 :: "string \<Rightarrow> string option" where
  "m_inet6 s =
    (if startswith s ''inet6 '' then
       (let g = takeWhile (\<lambda>c. is_hex_lower c \<or> c = CHR '':'') (drop 6 s)
        in if g \<noteq> [] then Some g else None)
     else None)"

definition bsd_line :: "string \<Rightarrow> interface \<times> interface list \<Rightarrow> interface \<times> interface list" where
  "bsd_line line st =
    (if \<not> startswith line [CHR 0x09] then
       (case flush st of (adapter, interfaces) \<Rightarrow>
          (let adapter1 = (case m_ifname line of
                             Some n \<Rightarrow> adapter\<lparr>name := Some n\<rparr> | None \<Rightarrow> adapter);
               adapter2 = (case re_search m_ether line of
                             Some g \<Rightarrow> adapter1\<lparr>mac := Some g\<rparr> | None \<Rightarrow> adapter1)
           in (adapter2, interfaces)))
     else
       (case st of (adapter, interfaces) \<Rightarrow>
          (let adapter1 = (case re_search m_inet line of
                             Some g \<Rightarrow> append_ipv4 g adapter | None \<Rightarrow> adapter);
               adapter2 = (case re_search m_inet6 line of
                             Some g \<Rightarrow> append_ipv6 g adapter1 | None \<Rightarrow> adapter1);
               adapter3 = (case re_search m_ether line of
                             Some g \<Rightarrow> adapter2\<lparr>mac := Some g\<rparr> | None \<Rightarrow> adapter2)
           in (adapter3, interfaces))))"

definition parse_ip_config_posix :: "host \<Rightarrow> interface list" where
  "parse_ip_config_posix h =
    (let cmd = (if system h = ''linux'' then ''ip -o addr show'' else ''ifconfig -a'');
         output = run_command h cmd
     in if output = [] then []
        else if system h = ''linux'' then map snd (fold linux_line (splitlines output) [])
        else (case fold bsd_line (splitlines output) (empty_dict, []) of
                (adapter, interfaces) \<Rightarrow>
                  if adapter \<noteq> empty_dict then interfaces @ [adapter] else interfaces))"

definition get_network_info :: "host \<Rightarrow> interface list" where
  "get_network_info h =
    (if system h = ''windows'' then parse_ip_config_windows h else parse_ip_config_posix h)"

section \<open>Local accounts\<close>

text \<open>
  \<^verbatim>\<open>open(path, "r", ...)\<close> reads in text mode with universal newlines: \<^verbatim>\<open>\r\n\<close> and a
  single \<^verbatim>\<open>\r\<close> both arrive as \<^verbatim>\<open>\n\<close>. A file is either unreadable (\<^const>\<open>None\<close>, the
  \<^verbatim>\<open>except\<close> branch) or read to its end. Iterating over the file yields its lines with
  the terminating \<^verbatim>\<open>\n\<close> kept.
\<close>

fun universal_newlines :: "string \<Rightarrow> string" where
  "universal_newlines [] = []"
| "universal_newlines (c # cs) =
    (if c = CHR 0x0D then
       (case cs of
          [] \<Rightarrow> [CHR 0x0A]
        | d # ds \<Rightarrow>
            if d = CHR 0x0A then CHR 0x0A # universal_newlines ds
            else CHR 0x0A # universal_newlines cs)
     else c # universal_newlines cs)"

definition read_text :: "host \<Rightarrow> string \<Rightarrow> string option" where
  "read_text h path = map_option universal_newlines (files h path)"

fun file_lines :: "string \<Rightarrow> string list" where
  "file_lines [] = []"
| "file_lines (c # cs) =
    (if c = CHR 0x0A then [c] # file_lines cs
     else (case file_lines cs of [] \<Rightarrow> [[c]] | l # ls \<Rightarrow> (c # l) # ls))"

text \<open>The loop over the output of \<^verbatim>\<open>net user\<close>; \<^verbatim>\<open>break\<close> returns what was collected.\<close>

fun net_user_loop :: "bool \<Rightarrow> string list \<Rightarrow> string list \<Rightarrow> string list" where
  "net_user_loop collecting accounts [] = accounts"
| "net_user_loop collecting accounts (line # rest) =
    (if \<not> collecting then
       (if startswith (strip line) ''---'' then net_user_loop True accounts rest
        else net_user_loop collecting accounts rest)
     else if strip line = [] then accounts
     else net_user_loop collecting
            (accounts @ filter (\<lambda>n. n \<noteq> []) (split_ws line)) rest)"

definition passwd_line :: "string \<Rightarrow> string list \<Rightarrow> string list" where
  "passwd_line line accounts =
    (if strip line = [] \<or> startswith line ''#'' then accounts
     else accounts @ [hd (split_char CHR '':'' line)])"

definition get_local_users :: "host \<Rightarrow> string list" where
  "get_local_users h =
    (if system h = ''windows'' then
       (let output = run_command h ''net user''
        in if output \<noteq> [] then net_user_loop False [] (splitlines output) else [])
     else
       (case read_text h ''/etc/passwd'' of
          None \<Rightarrow> []
        | Some content \<Rightarrow> fold passwd_line (file_lines content) []))"

section \<open>Hardware\<close>

text \<open>The exceptions that leave a collector: nothing in the collector catches them.\<close>

datatype error = ValueError | IndexError

record mem_info =
  mem_total :: "int option"
  mem_free :: "int option"

subsection \<open>Memory\<close>

text \<open>
  Windows: each \<^verbatim>\<open>int\<close> stands in its own \<^verbatim>\<open>try\<close>; a \<^verbatim>\<open>ValueError\<close> leaves the field as
  it was. A line with an equals sign still has it after \<^verbatim>\<open>strip\<close>, so the split gives two
  parts.
\<close>

definition wmic_mem_line :: "string \<Rightarrow> int option \<times> int option \<Rightarrow> int option \<times> int option" where
  "wmic_mem_line line st =
    (case st of (tot, fre) \<Rightarrow>
       if CHR ''='' \<in> set line then
         (let parts = split1 CHR ''='' (strip line); key = parts ! 0; v = parts ! 1
          in if key = ''FreePhysicalMemory'' then
               (case py_int v of Some n \<Rightarrow> (tot, Some (n * 1024)) | None \<Rightarrow> (tot, fre))
             else if key = ''TotalVisibleMemorySize'' then
               (case py_int v of Some n \<Rightarrow> (Some (n * 1024), fre) | None \<Rightarrow> (tot, fre))
             else (tot, fre))
       else (tot, fre))"

text \<open>
  Linux, \<^verbatim>\<open>free -b\<close>: the loop stops at the first line that starts with \<^verbatim>\<open>Mem:\<close>. The two
  calls of \<^verbatim>\<open>int\<close> stand in no \<^verbatim>\<open>try\<close>: a \<^verbatim>\<open>ValueError\<close> leaves the function.
\<close>

fun free_loop :: "string list \<Rightarrow> error + mem_info" where
  "free_loop [] = Inr \<lparr>mem_total = None, mem_free = None\<rparr>"
| "free_loop (line # rest) =
    (if startswith line ''Mem:'' then
       (let parts = split_ws line
        in if length parts \<ge> 4 then
             (case py_int (parts ! 1) of
                None \<Rightarrow> Inl ValueError
              | Some t \<Rightarrow>
                  (case py_int (parts ! 3) of
                     None \<Rightarrow> Inl ValueError
                   | Some f \<Rightarrow> Inr \<lparr>mem_total = Some t, mem_free = Some f\<rparr>))
           else Inr \<lparr>mem_total = None, mem_free = None\<rparr>)
     else free_loop rest)"

text \<open>
  Linux, \<^verbatim>\<open>/proc/meminfo\<close>: the whole loop stands in one \<^verbatim>\<open>try\<close>; an exception
  (\<^verbatim>\<open>IndexError\<close> of \<^verbatim>\<open>line.split()[1]\<close>, \<^verbatim>\<open>ValueError\<close> of \<^verbatim>\<open>int\<close>) ends the loop with
  the fields as they are.
\<close>

fun meminfo_loop :: "int option \<times> int option \<Rightarrow> string list \<Rightarrow> int option \<times> int option" where
  "meminfo_loop st [] = st"
| "meminfo_loop st (line # rest) =
    (case st of (tot, fre) \<Rightarrow>
       if startswith line ''MemTotal:'' then
         (if length (split_ws line) < 2 then st
          else (case py_int (split_ws line ! 1) of
                  None \<Rightarrow> st
                | Some n \<Rightarrow>
                    if fre \<noteq> None then (Some (n * 1024), fre)
                    else meminfo_loop (Some (n * 1024), fre) rest))
       else if startswith line ''MemFree:'' then
         (if length (split_ws line) < 2 then st
          else (case py_int (split_ws line ! 1) of
                  None \<Rightarrow> st
                | Some n \<Rightarrow>
                    if tot \<noteq> None then (tot, Some (n * 1024))
                    else meminfo_loop (tot, Some (n * 1024)) rest))
       else if tot \<noteq> None \<and> fre \<noteq> None then st
       else meminfo_loop st rest)"

text \<open>
  macOS. \<^verbatim>\<open>page size of (\d+) bytes\<close> and \<^verbatim>\<open>^Pages free:\s+(\d+)\<close>, anchored: whitespace
  and digits are disjoint and a run of digits is followed by something that is not a digit,
  so every greedy repetition is the whole run. The captured group is a non-empty string of
  decimal digits; \<^verbatim>\<open>int\<close> refuses it, with \<^verbatim>\<open>ValueError\<close> and outside any \<^verbatim>\<open>try\<close>,
  when it has more than 4300 digits.
\<close>

definition m_page_size :: "string \<Rightarrow> string option" where
  "m_page_size s =
    (if startswith s ''page size of '' then
       (let r = drop (length ''page size of '') s; g = takeWhile isdigit r
        in if g \<noteq> [] \<and> startswith (dropWhile isdigit r) '' bytes'' then Some g else None)
     else None)"

definition m_pages_free :: "string \<Rightarrow> string option" where
  "m_pages_free line =
    (if startswith line ''Pages free:'' then
       (let r = drop (length ''Pages free:'') line;
            g = takeWhile isdigit (dropWhile isspace r)
        in if takeWhile isspace r \<noteq> [] \<and> g \<noteq> [] then Some g else None)
     else None)"

fun pages_free_loop :: "string list \<Rightarrow> error + int" where
  "pages_free_loop [] = Inr 0"
| "pages_free_loop (line # rest) =
    (case m_pages_free line of
       Some g \<Rightarrow> (case py_int g of None \<Rightarrow> Inl ValueError | Some n \<Rightarrow> Inr n)
     | None \<Rightarrow> pages_free_loop rest)"

definition get_memory_info :: "host \<Rightarrow> error + mem_info" where
  "get_memory_info h =
    (if system h = ''windows'' then
       (let output = run_command h ''wmic OS get FreePhysicalMemory,TotalVisibleMemorySize /Value''
        in if output \<noteq> [] then
             (case fold wmic_mem_line (splitlines output) (None, None) of
                (tot, fre) \<Rightarrow> Inr \<lparr>mem_total = tot, mem_free = fre\<rparr>)
           else Inr \<lparr>mem_total = None, mem_free = None\<rparr>)
     else if system h = ''linux'' then
       (let output = run_command h ''free -b''
        in if output \<noteq> [] then free_loop (splitlines output)
           else
             (case read_text h ''/proc/meminfo'' of
                None \<Rightarrow> Inr \<lparr>mem_total = None, mem_free = None\<rparr>
              | Some content \<Rightarrow>
                  (case meminfo_loop (None, None) (file_lines content) of
                     (tot, fre) \<Rightarrow> Inr \<lparr>mem_total = tot, mem_free = fre\<rparr>)))
     else if system h = ''darwin'' then
       (let total_str = run_command h ''sysctl -n hw.memsize''
        in case (if str_isdigit total_str
                 then (case py_int total_str of None \<Rightarrow> Inl ValueError | Some t \<Rightarrow> Inr (Some t))
                 else Inr None) of
             Inl e \<Rightarrow> Inl e
           | Inr tot \<Rightarrow>
               (let vm_output = run_command h ''vm_stat''
                in if vm_output \<noteq> [] then
                     (case (case re_search m_page_size vm_output of
                              Some g \<Rightarrow>
                                (case py_int g of None \<Rightarrow> Inl ValueError | Some n \<Rightarrow> Inr n)
                            | None \<Rightarrow> Inr 4096) of
                        Inl e \<Rightarrow> Inl e
                      | Inr page_size \<Rightarrow>
                          (case pages_free_loop (splitlines vm_output) of
                             Inl e \<Rightarrow> Inl e
                           | Inr pages_free \<Rightarrow>
                               Inr \<lparr>mem_total = tot,
                                    mem_free = (if pages_free \<noteq> 0
                                                then Some (pages_free * page_size)
                                                else None)\<rparr>))
                   else Inr \<lparr>mem_total = tot, mem_free = None\<rparr>))
     else Inr \<lparr>mem_total = None, mem_free = None\<rparr>)"

subsection \<open>Processor\<close>

text \<open>\<^verbatim>\<open>line.split(sep, 1)[1]\<close>: \<^verbatim>\<open>IndexError\<close> when the line has no separator.\<close>

definition after_sep :: "char \<Rightarrow> string \<Rightarrow> error + string" where
  "after_sep sep line =
    (let parts = split1 sep line in if length parts < 2 then Inl IndexError else Inr (parts ! 1))"

fun wmic_cpu_loop :: "string list \<Rightarrow> string option" where
  "wmic_cpu_loop [] = None"
| "wmic_cpu_loop (line # rest) =
    (if startswith line ''Name='' then
       (case after_sep CHR ''='' line of Inr v \<Rightarrow> Some (strip v) | Inl _ \<Rightarrow> None)
     else wmic_cpu_loop rest)"

text \<open>\<^verbatim>\<open>/proc/cpuinfo\<close>, inside \<^verbatim>\<open>try\<close>: an \<^verbatim>\<open>IndexError\<close> ends the loop with no result.\<close>

fun cpuinfo_loop :: "string list \<Rightarrow> string option" where
  "cpuinfo_loop [] = None"
| "cpuinfo_loop (line # rest) =
    (if startswith (py_lower line) ''model name'' then
       (case after_sep CHR '':'' line of Inr v \<Rightarrow> Some (strip v) | Inl _ \<Rightarrow> None)
     else cpuinfo_loop rest)"

text \<open>\<^verbatim>\<open>lscpu\<close>, outside any \<^verbatim>\<open>try\<close>: an \<^verbatim>\<open>IndexError\<close> leaves the function.\<close>

fun lscpu_loop :: "string list \<Rightarrow> error + string option" where
  "lscpu_loop [] = Inr None"
| "lscpu_loop (line # rest) =
    (if substring_in ''model name'' (py_lower line) then
       (case after_sep CHR '':'' line of Inr v \<Rightarrow> Inr (Some (strip v)) | Inl e \<Rightarrow> Inl e)
     else lscpu_loop rest)"

definition get_cpu_info :: "host \<Rightarrow> error + string option" where
  "get_cpu_info h =
    (if system h = ''windows'' then
       Inr (wmic_cpu_loop (splitlines (run_command h ''wmic cpu get Name /Value'')))
     else if system h = ''linux'' then
       (let cpu1 = (case read_text h ''/proc/cpuinfo'' of
                      None \<Rightarrow> None | Some content \<Rightarrow> cpuinfo_loop (file_lines content))
        in if cpu1 = None \<or> cpu1 = Some [] then
             (case lscpu_loop (splitlines (run_command h ''lscpu'')) of
                Inl e \<Rightarrow> Inl e
              | Inr None \<Rightarrow> Inr cpu1
              | Inr (Some v) \<Rightarrow> Inr (Some v))
           else Inr cpu1)
     else if system h = ''darwin'' then
       (let output = run_command h ''sysctl -n machdep.cpu.brand_string''
        in if output \<noteq> [] then Inr (Some (strip output)) else Inr None)
     else Inr None)"

subsection \<open>Vendor and model\<close>

text \<open>
  The result is the pair of \<^verbatim>\<open>manufacturer\<close> and \<^verbatim>\<open>model\<close>. In every branch the tested
  label contains the separator, so \<^verbatim>\<open>line.split(sep, 1)[1]\<close> is the text after it.
\<close>

definition after_first :: "char \<Rightarrow> string \<Rightarrow> string" where
  "after_first sep line = tl (dropWhile (\<lambda>c. c \<noteq> sep) line)"

definition wmic_vendor_line :: "string \<Rightarrow> string option \<times> string option
    \<Rightarrow> string option \<times> string option" where
  "wmic_vendor_line line st =
    (case st of (man, mdl) \<Rightarrow>
       if startswith (py_lower line) ''manufacturer='' then
         (Some (strip (after_first CHR ''='' line)), mdl)
       else if startswith (py_lower line) ''model='' then
         (man, Some (strip (after_first CHR ''='' line)))
       else (man, mdl))"

definition profiler_line :: "string \<Rightarrow> string option \<times> string option
    \<Rightarrow> string option \<times> string option" where
  "profiler_line line st =
    (case st of (man, mdl) \<Rightarrow>
       if substring_in ''Model Name:'' line then
         (man, Some (strip (after_first CHR '':'' line)))
       else if substring_in ''Model Identifier:'' line \<and> (mdl = None \<or> mdl = Some []) then
         (man, Some (strip (after_first CHR '':'' line)))
       else if substring_in ''Manufacturer:'' line then
         (Some (strip (after_first CHR '':'' line)), mdl)
       else (man, mdl))"

definition get_vendor_model :: "host \<Rightarrow> string option \<times> string option" where
  "get_vendor_model h =
    (if system h = ''windows'' then
       fold wmic_vendor_line
         (splitlines (run_command h ''wmic computersystem get manufacturer,model /Value''))
         (None, None)
     else if system h = ''linux'' then
       (map_option strip (read_text h ''/sys/class/dmi/id/sys_vendor''),
        map_option strip (read_text h ''/sys/class/dmi/id/product_name''))
     else if system h = ''darwin'' then
       (let output = run_command h ''system_profiler SPHardwareDataType''
        in if output \<noteq> [] then fold profiler_line (splitlines output) (None, None)
           else (None, None))
     else (None, None))"

subsection \<open>Disks\<close>

record disk =
  disk_name :: string
  disk_filesystem :: "string option"
  disk_total :: "int option"
  disk_free :: "int option"
  disk_used :: "int option"

definition wmic_disk_line :: "string \<Rightarrow> disk list \<Rightarrow> disk list" where
  "wmic_disk_line line disks =
    (if line = [] \<or> startswith line ''Node'' then disks
     else
       (let parts = split_char CHR '','' line
        in if length parts \<ge> 5 then
             (let caption = parts ! 1;
                  filesystem = (if parts ! 2 \<noteq> [] then Some (parts ! 2) else None);
                  fre = (if parts ! 3 \<noteq> [] then py_int (parts ! 3) else None);
                  size = (if parts ! 4 \<noteq> [] then py_int (parts ! 4) else None);
                  usd = (case (size, fre) of (Some sz, Some fr) \<Rightarrow> Some (sz - fr) | _ \<Rightarrow> None)
              in disks @ [\<lparr>disk_name = caption, disk_filesystem = filesystem,
                            disk_total = size, disk_free = fre, disk_used = usd\<rparr>])
           else disks))"

definition df_line :: "string \<Rightarrow> disk list \<Rightarrow> disk list" where
  "df_line line disks =
    (let parts = split_ws line
     in if length parts < 6 then disks
        else disks @ [\<lparr>disk_name = parts ! 5, disk_filesystem = Some (parts ! 0),
                        disk_total = py_int (parts ! 1), disk_free = py_int (parts ! 3),
                        disk_used = py_int (parts ! 2)\<rparr>])"

definition get_disk_info :: "host \<Rightarrow> disk list" where
  "get_disk_info h =
    (if system h = ''windows'' then
       (let output = run_command h
                       ''wmic logicaldisk get Caption,FileSystem,FreeSpace,Size /Format:csv''
        in if output \<noteq> [] then fold wmic_disk_line (splitlines output) [] else [])
     else
       (let output = run_command h ''df -P -B1''
        in if output \<noteq> [] then fold df_line (tl (splitlines output)) [] else []))"

section \<open>Security tools\<close>

text \<open>
  The entries of the dictionary literal \<^verbatim>\<open>SECURITY_PROCESSES\<close> in the order of the source.
  Some keys are written twice; in a dictionary literal the last entry of a key is the one
  that counts. The product names are only compared and sorted, never taken apart. One of
  them has a non-breaking hyphen (U+2011), written here as the three bytes of its UTF-8
  encoding, which keeps the order of the names by code point.
\<close>

definition SECURITY_PROCESSES_items :: "(string \<times> string) list" where
  "SECURITY_PROCESSES_items =
    [
    (''csfalconservice'', ''CrowdStrike Falcon''),
     (''cbcomms'', ''CrowdStrike Falcon Insight XDR''),
     (''crowdstrike'', ''CrowdStrike Falcon''),
     (''carbonsensor'', ''VMware Carbon Black EDR''),
     (''cb.exe'', ''Carbon Black EDR''),
     (''cpx'', ''SentinelOne Singularity XDR''),
     (''cybereason'', ''Cybereason EDR''),
     (''tanclient'', ''Tanium EDR''),
     (''xagt'', ''FireEye HX''),
     (''trapsagent'', ''Palo Alto Networks Cortex XDR''),
     (''trapsd'', ''Palo Alto Networks Cortex XDR''),
     (''msmpeng'', ''Microsoft Defender''),
     (''msascuil'', ''Microsoft Defender''),
     (''windefend'', ''Microsoft Defender''),
     (''sysmon'', ''Microsoft Sysmon''),
     (''ccsvchst'', ''Symantec Endpoint Protection''),
     (''rtvscan'', ''Symantec Endpoint Protection''),
     (''edpa'', ''McAfee Endpoint Security''),
     (''shstat'', ''McAfee VirusScan''),
     (''mcshield'', ''McAfee VirusScan''),
     (''mfefire'', ''McAfee Host Intrusion Prevention''),
     (''dlpsensor'', ''McAfee DLP Sensor''),
     (''bdagent'', ''Bitdefender''),
     (''vsserv'', ''Bitdefender''),
     (''savservice'', ''Sophos Endpoint Security''),
     (''sophosav'', ''Sophos Endpoint Security''),
     (''sophossps'', ''Sophos Endpoint Security''),
     (''sophosui'', ''Sophos Endpoint Security''),
     (''pavfnsvr'', ''Panda Security''),
     (''pavsrv'', ''Panda Security''),
     (''psanhost'', ''Panda Security''),
     (''panda_url_filtering'', ''Panda Security''),
     (''cpd'', ''Check Point Daemon''),
     (''fw'', ''Check Point Firewall''),
     (''fortiedr'', ''Fortinet FortiEDR''),
     (''egui'', ''ESET NOD32''),
     (''ekrn'', ''ESET NOD32''),
     (''avp'', ''Kaspersky Anti'' @ [CHR 0xE2, CHR 0x80, CHR 0x91] @ ''Virus''),
     (''avastsvc'', ''Avast''),
     (''avastui'', ''Avast''),
     (''avgnt'', ''Avira''),
     (''avguard'', ''Avira''),
     (''mbamservice'', ''Malwarebytes''),
     (''mbamtray'', ''Malwarebytes''),
     (''firesvc'', ''FireEye Endpoint Agent''),
     (''firetray'', ''FireEye Endpoint Agent''),
     (''dlpagent'', ''Symantec DLP Agent''),
     (''mbamservice'', ''Malwarebytes''),
     (''mbamtray'', ''Malwarebytes''),
     (''savservice'', ''Sophos Endpoint Security''),
     (''wrsa'', ''Webroot SecureAnywhere''),
     (''truecrypt'', ''TrueCrypt (encryption tool)'')]"

definition SECURITY_PROCESSES :: "string \<rightharpoonup> string" where
  "SECURITY_PROCESSES = map_of (rev SECURITY_PROCESSES_items)"

definition tasklist_line :: "string \<Rightarrow> string list \<Rightarrow> string list" where
  "tasklist_line line processes =
    (if line = [] then processes
     else
       (let fields = map (strip_char (CHR 0x22)) (split_char CHR '','' line)
        in if fields \<noteq> [] then
             (let exe = py_lower (hd fields);
                  exe' = (if endswith exe ''.exe'' then take (length exe - 4) exe else exe)
              in processes @ [exe'])
           else processes))"

text \<open>\<^verbatim>\<open>os.path.basename\<close> of \<^verbatim>\<open>posixpath\<close>: the text after the last slash.\<close>

definition basename :: "string \<Rightarrow> string" where
  "basename p = rev (takeWhile (\<lambda>c. c \<noteq> CHR ''/'') (rev p))"

definition ps_line :: "string \<Rightarrow> string list \<Rightarrow> string list" where
  "ps_line line processes = processes @ [py_lower (basename (strip line))]"

definition get_running_process_names :: "host \<Rightarrow> string list" where
  "get_running_process_names h =
    (if system h = ''windows'' then
       fold tasklist_line (splitlines (run_command h ''tasklist /fo csv /nh'')) []
     else fold ps_line (tl (splitlines (run_command h ''ps -eo comm''))) [])"

text \<open>
  \<^verbatim>\<open>detected\<close> is a Python set; \<^verbatim>\<open>sorted\<close> lists it in ascending order, whatever order the
  set is traversed in.
\<close>

definition detect_step :: "string \<Rightarrow> string set \<Rightarrow> string set" where
  "detect_step proc detected =
    (case SECURITY_PROCESSES proc of Some product \<Rightarrow> insert product detected | None \<Rightarrow> detected)"

definition detect_security_tools :: "host \<Rightarrow> string list" where
  "detect_security_tools h =
    sorted_list_of_set (fold detect_step (get_running_process_names h) {})"

section \<open>The report\<close>

record os_info =
  os_system :: string
  os_release :: string
  os_version :: string
  os_architecture :: string

record basic_config_info =
  hostname :: string
  domain :: "string option"
  current_user :: string
  os :: os_info
  users :: "string list"

record hardware_info =
  manufacturer :: "string option"
  model :: "string option"
  cpu :: "string option"
  memory_total_bytes :: "int option"
  memory_free_bytes :: "int option"
  disks :: "disk list"

record security_info =
  detected :: "string list"
  detection_method :: string

record host_info =
  collected_at :: string
  basic_config :: basic_config_info
  network :: "interface list"
  hardware :: hardware_info
  security_tools :: security_info

definition get_os_info :: "host \<Rightarrow> os_info" where
  "get_os_info h =
    \<lparr>os_system = platform_system h, os_release = platform_release h,
     os_version = platform_version h, os_architecture = platform_machine h\<rparr>"

text \<open>
  \<^verbatim>\<open>gather_host_info\<close>. The argument \<open>now\<close> is the text that \<^verbatim>\<open>time.strftime\<close> gives for
  the clock at the start of the run. The collectors run in the order of the source; the
  first exception that leaves one of them leaves \<^verbatim>\<open>gather_host_info\<close>.
\<close>

definition gather_host_info :: "host \<Rightarrow> string \<Rightarrow> error + host_info" where
  "gather_host_info h now =
    (let bc = \<lparr>hostname = get_hostname h, domain = get_domain_name h,
               current_user = get_current_user h, os = get_os_info h,
               users = get_local_users h\<rparr>;
         net = get_network_info h
     in case get_memory_info h of
          Inl e \<Rightarrow> Inl e
        | Inr mem \<Rightarrow>
            (case get_vendor_model h of (man, mdl) \<Rightarrow>
               (case get_cpu_info h of
                  Inl e \<Rightarrow> Inl e
                | Inr c \<Rightarrow>
                    Inr \<lparr>collected_at = now, basic_config = bc, network = net,
                         hardware = \<lparr>manufacturer = man, model = mdl, cpu = c,
                                     memory_total_bytes = mem_total mem,
                                     memory_free_bytes = mem_free mem,
                                     disks = get_disk_info h\<rparr>,
                         security_tools = \<lparr>detected = detect_security_tools h,
                                           detection_method = ''process_scan''\<rparr>\<rparr>)))"

text \<open>A host for examples: a platform name and the raw output of some commands.\<close>

definition example_host :: "string \<Rightarrow> (string \<times> string) list \<Rightarrow> host" where
  "example_host sys outputs =
    \<lparr>platform_system = sys, platform_release = [], platform_version = [], platform_machine = [],
     gethostname = None, getuser = None, environ = (\<lambda>_. None),
     shell = (\<lambda>cmd. case map_of outputs cmd of None \<Rightarrow> Failed | Some s \<Rightarrow> Stdout s),
     files = (\<lambda>_. None)\<rparr>"

section \<open>Facts about the text primitives\<close>

lemma lstrip_idem: "lstrip (lstrip s) = lstrip s"
  by (simp add: lstrip_def dropWhile_idem)

lemma rstrip_idem: "rstrip (rstrip s) = rstrip s"
  by (simp add: rstrip_def dropWhile_idem)

lemma lstrip_rstrip_commute: "lstrip (rstrip s) = rstrip (lstrip s)"
  unfolding lstrip_def rstrip_def
proof (induction s)
  case Nil
  then show ?case by simp
next
  case (Cons c s)
  show ?case
  proof (cases "isspace c")
    case True
    have "dropWhile isspace (rev (c # s)) =
        (if dropWhile isspace (rev s) = [] then [] else dropWhile isspace (rev s) @ [c])"
      using True by (simp add: dropWhile_append)
    then show ?thesis
      using Cons True by (auto dest: set_dropWhileD)
  next
    case False
    have "dropWhile isspace (rev (c # s)) = dropWhile isspace (rev s) @ [c]"
      using False by (auto simp add: dropWhile_append)
    then show ?thesis
      using False by simp
  qed
qed

lemma strip_idem: "strip (strip s) = strip s"
  by (simp add: strip_def lstrip_rstrip_commute lstrip_idem rstrip_idem)

lemma strip_Nil: "strip [] = []"
  by (simp add: strip_def lstrip_def rstrip_def)

lemma strip_run_command: "strip (run_command h c) = run_command h c"
  by (simp add: run_command_def strip_idem strip_Nil split: cmd_result.splits)

lemma find_SomeD: "List.find P xs = Some x \<Longrightarrow> P x"
  by (auto simp: find_Some_iff)

lemma find_NoneI: "\<forall>x \<in> set xs. \<not> P x \<Longrightarrow> List.find P xs = None"
  by (simp add: find_None_iff)

section \<open>The domain cascade\<close>

lemma domain_loop_find:
  "domain_loop h cmds =
     List.find (\<lambda>output. output \<noteq> [] \<and> py_lower output \<noteq> ''(none)'' \<and> py_lower output \<noteq> ''unknown'')
       (map (run_command h) cmds)"
  by (induction cmds) (simp_all add: Let_def strip_run_command)

text \<open>
  Claim C7. On a POSIX host \<^verbatim>\<open>get_domain_name\<close> returns the first of the outputs of
  \<^verbatim>\<open>hostname -d\<close>, \<^verbatim>\<open>dnsdomainname\<close> and \<^verbatim>\<open>domainname\<close>, in this order, that is not empty
  and whose lower-case form is neither \<^verbatim>\<open>(none)\<close> nor \<^verbatim>\<open>unknown\<close>. The result is never
  the empty string and never one of the two tokens in any spelling of upper and lower case;
  when each of the three outputs is empty or one of the tokens, the result is absent.
\<close>

theorem posix_domain_cascade:
  assumes "system h \<noteq> ''windows''"
  shows "get_domain_name h =
      List.find (\<lambda>output. output \<noteq> [] \<and> py_lower output \<noteq> ''(none)'' \<and> py_lower output \<noteq> ''unknown'')
        [run_command h ''hostname -d'', run_command h ''dnsdomainname'', run_command h ''domainname'']
    \<and> get_domain_name h \<noteq> Some []
    \<and> (\<forall>d. get_domain_name h = Some d \<longrightarrow> py_lower d \<noteq> ''(none)'' \<and> py_lower d \<noteq> ''unknown'')
    \<and> ((\<forall>cmd \<in> set [''hostname -d'', ''dnsdomainname'', ''domainname''].
           run_command h cmd = [] \<or> py_lower (run_command h cmd) = ''(none)''
           \<or> py_lower (run_command h cmd) = ''unknown'')
         \<longrightarrow> get_domain_name h = None)"
proof -
  let ?ok = "\<lambda>output. output \<noteq> [] \<and> py_lower output \<noteq> ''(none)'' \<and> py_lower output \<noteq> ''unknown''"
  let ?outs = "[run_command h ''hostname -d'', run_command h ''dnsdomainname'', run_command h ''domainname'']"
  have eq: "get_domain_name h = List.find ?ok ?outs"
    using assms by (simp add: get_domain_name_def domain_loop_find)
  have ok: "?ok d" if "get_domain_name h = Some d" for d
  proof -
    from that have "List.find ?ok ?outs = Some d" unfolding eq .
    then show ?thesis by (rule find_SomeD [where P = ?ok])
  qed
  have none: "get_domain_name h = None"
    if "\<forall>cmd \<in> set [''hostname -d'', ''dnsdomainname'', ''domainname''].
           run_command h cmd = [] \<or> py_lower (run_command h cmd) = ''(none)''
           \<or> py_lower (run_command h cmd) = ''unknown''"
  proof -
    from that have "\<forall>output \<in> set ?outs. \<not> ?ok output" by simp
    then have "List.find ?ok ?outs = None" by (rule find_NoneI)
    then show ?thesis unfolding eq .
  qed
  from eq ok none show ?thesis by blast
qed

text \<open>The three commands all print \<^verbatim>\<open>(none)\<close>: the domain is absent.\<close>

theorem posix_domain_cascade_witness:
  "system (example_host ''Linux''
      [(''hostname -d'', ''(none)''), (''dnsdomainname'', ''(none)''), (''domainname'', ''(none)'')])
     \<noteq> ''windows''
   \<and> get_domain_name (example_host ''Linux''
      [(''hostname -d'', ''(none)''), (''dnsdomainname'', ''(none)''), (''domainname'', ''(none)'')])
     = None"
proof -
  let ?h = "example_host ''Linux''
      [(''hostname -d'', ''(none)''), (''dnsdomainname'', ''(none)''), (''domainname'', ''(none)'')]"
  have a: "system ?h \<noteq> ''windows''"
    by code_simp
  have b: "\<forall>cmd \<in> set [''hostname -d'', ''dnsdomainname'', ''domainname''].
           run_command ?h cmd = [] \<or> py_lower (run_command ?h cmd) = ''(none)''
           \<or> py_lower (run_command ?h cmd) = ''unknown''"
    by code_simp
  from posix_domain_cascade [OF a] b have "get_domain_name ?h = None"
    by blast
  with a show ?thesis by blast
qed

section \<open>Network parsers: empty output, and interfaces without a name\<close>

text \<open>
  Claim C9. On every platform, when the command the network parser runs prints nothing (or
  fails, or prints only whitespace), the parser returns the empty list. The platform decides
  the command: \<^verbatim>\<open>ipconfig /all\<close> on Windows, \<^verbatim>\<open>ip -o addr show\<close> on Linux and
  \<^verbatim>\<open>ifconfig -a\<close> everywhere else (macOS and the other POSIX systems). No step of the
  parsers can raise: every index is read behind a length test.
\<close>

theorem empty_output_no_interfaces:
  assumes "run_command h (if system h = ''windows'' then ''ipconfig /all''
                          else if system h = ''linux'' then ''ip -o addr show''
                          else ''ifconfig -a'') = []"
  shows "get_network_info h = []"
  using assms
  by (simp add: get_network_info_def parse_ip_config_windows_def parse_ip_config_posix_def
      split: if_splits)

text \<open>
  Windows, Linux, macOS and FreeBSD hosts whose command prints nothing, prints a newline, or
  fails.
\<close>

theorem empty_output_no_interfaces_witness:
  "get_network_info (example_host ''Windows'' [(''ipconfig /all'', '''')]) = []
   \<and> get_network_info (example_host ''Linux'' [(''ip -o addr show'', [CHR 0x0A])]) = []
   \<and> get_network_info (example_host ''Darwin'' [(''ifconfig -a'', '''')]) = []
   \<and> get_network_info (example_host ''FreeBSD'' []) = []"
proof -
  have w: "run_command (example_host ''Windows'' [(''ipconfig /all'', '''')])
      (if system (example_host ''Windows'' [(''ipconfig /all'', '''')]) = ''windows''
       then ''ipconfig /all''
       else if system (example_host ''Windows'' [(''ipconfig /all'', '''')]) = ''linux''
       then ''ip -o addr show'' else ''ifconfig -a'') = []"
    by code_simp
  have l: "run_command (example_host ''Linux'' [(''ip -o addr show'', [CHR 0x0A])])
      (if system (example_host ''Linux'' [(''ip -o addr show'', [CHR 0x0A])]) = ''windows''
       then ''ipconfig /all''
       else if system (example_host ''Linux'' [(''ip -o addr show'', [CHR 0x0A])]) = ''linux''
       then ''ip -o addr show'' else ''ifconfig -a'') = []"
    by code_simp
  have d: "run_command (example_host ''Darwin'' [(''ifconfig -a'', '''')])
      (if system (example_host ''Darwin'' [(''ifconfig -a'', '''')]) = ''windows''
       then ''ipconfig /all''
       else if system (example_host ''Darwin'' [(''ifconfig -a'', '''')]) = ''linux''
       then ''ip -o addr show'' else ''ifconfig -a'') = []"
    by code_simp
  have f: "run_command (example_host ''FreeBSD'' [])
      (if system (example_host ''FreeBSD'' []) = ''windows''
       then ''ipconfig /all''
       else if system (example_host ''FreeBSD'' []) = ''linux''
       then ''ip -o addr show'' else ''ifconfig -a'') = []"
    by code_simp
  show ?thesis
    using empty_output_no_interfaces [OF w] empty_output_no_interfaces [OF l]
      empty_output_no_interfaces [OF d] empty_output_no_interfaces [OF f]
    by blast
qed

text \<open>
  Claim C1 says that a field of the \<^verbatim>\<open>Mem:\<close> line of \<^verbatim>\<open>free -b\<close> that is no integer
  leaves the value absent and never aborts the collector. The code does otherwise: with
  \<^verbatim>\<open>n/a\<close> as the second or as the fourth field, \<^verbatim>\<open>get_memory_info\<close> raises
  \<^verbatim>\<open>ValueError\<close>, and so does \<^verbatim>\<open>gather_host_info\<close>: no report is produced. The Windows
  branch of the same function catches the exception and leaves the field absent.
\<close>

theorem linux_memory_unparseable_field_raises:
  "get_memory_info (example_host ''Linux'' [(''free -b'',
      ''              total        used        free'' @ [CHR 0x0A] @
      ''Mem:            n/a        1024        2048'')]) = Inl ValueError
   \<and> gather_host_info (example_host ''Linux'' [(''free -b'',
      ''              total        used        free'' @ [CHR 0x0A] @
      ''Mem:            n/a        1024        2048'')]) ''2026-01-01T00:00:00Z'' = Inl ValueError
   \<and> get_memory_info (example_host ''Linux'' [(''free -b'',
      ''Mem: 4096 1024 n/a'')]) = Inl ValueError
   \<and> get_memory_info (example_host ''Windows''
        [(''wmic OS get FreePhysicalMemory,TotalVisibleMemorySize /Value'',
          ''FreePhysicalMemory=n/a'' @ [CHR 0x0A] @ ''TotalVisibleMemorySize=4096'')])
      = Inr \<lparr>mem_total = Some 4194304, mem_free = None\<rparr>"
  by code_simp

text \<open>
  Claim C2 says that an interface with a MAC or an address has a name. The Windows parser
  breaks this on the usual layout of \<^verbatim>\<open>ipconfig /all\<close>, where a blank line follows the
  adapter header: the blank line closes the adapter that holds the name, and the MAC and the
  addresses below it go into a new adapter without a name. The BSD parser breaks it when a
  line of an interface block is indented with spaces: it does not start with a tab, so it
  opens a new adapter, which gets the MAC of the line but no name.
\<close>

theorem addresses_without_name:
  "parse_ip_config_windows (example_host ''Windows'' [(''ipconfig /all'',
      ''Windows IP Configuration'' @ [CHR 0x0A, CHR 0x0A] @
      ''Ethernet adapter Ethernet:'' @ [CHR 0x0A, CHR 0x0A] @
      ''   Physical Address. . . . . . . . . : 00-11-22-33-44-55'' @ [CHR 0x0A] @
      ''   Link-local IPv6 Address . . . . . : fe80::1%12(Preferred)'')])
    = [\<lparr>name = Some ''Ethernet adapter Ethernet'', mac = None, ipv4 = None, ipv6 = None\<rparr>,
       \<lparr>name = None, mac = Some ''00-11-22-33-44-55'', ipv4 = None, ipv6 = Some [''fe80::1%12'']\<rparr>]
   \<and> parse_ip_config_posix (example_host ''Darwin'' [(''ifconfig -a'',
      ''en0: flags=8863 mtu 1500'' @ [CHR 0x0A] @
      ''    ether aa:bb:cc:dd:ee:ff'' @ [CHR 0x0A] @
      ''    inet 192.168.1.2 netmask 0xffffff00'')])
    = [\<lparr>name = Some ''en0'', mac = None, ipv4 = None, ipv6 = None\<rparr>,
       \<lparr>name = None, mac = Some ''aa:bb:cc:dd:ee:ff'', ipv4 = None, ipv6 = None\<rparr>]"
  by code_simp

section \<open>The security classifier and the report\<close>

lemma split_char_nonempty: "split_char sep s \<noteq> []"
  by (induction s) (auto split: list.splits)

lemma fold_tasklist_line:
  "fold tasklist_line ls acc =
     acc @ map (\<lambda>line. let exe = py_lower (strip_char (CHR 0x22) (hd (split_char CHR '','' line)))
                       in if endswith exe ''.exe'' then take (length exe - 4) exe else exe)
             (filter (\<lambda>line. line \<noteq> []) ls)"
  by (induction ls arbitrary: acc)
    (simp_all add: tasklist_line_def Let_def split_char_nonempty hd_map)

lemma fold_ps_line:
  "fold ps_line ls acc = acc @ map (\<lambda>line. py_lower (basename (strip line))) ls"
  by (induction ls arbitrary: acc) (simp_all add: ps_line_def)

lemma fold_detect_step:
  "fold detect_step ps S = S \<union> {product. \<exists>proc \<in> set ps. SECURITY_PROCESSES proc = Some product}"
  by (induction ps arbitrary: S) (auto simp: detect_step_def split: option.splits)

lemma finite_fold_detect_step: "finite S \<Longrightarrow> finite (fold detect_step ps S)"
  by (induction ps arbitrary: S) (auto simp: detect_step_def split: option.splits)

lemma table_msmpeng: "SECURITY_PROCESSES ''msmpeng'' = Some ''Microsoft Defender''"
  by code_simp

lemma table_explorer: "SECURITY_PROCESSES ''explorer'' = None"
  by code_simp

text \<open>
  Claim C6. \<^verbatim>\<open>detect_security_tools\<close> returns a sorted list without duplicates; its
  elements are exactly the product names that \<^verbatim>\<open>SECURITY_PROCESSES\<close> gives for the name of
  some running process, looked up as it is (a process that is no key adds nothing). The
  process names are normalised as the claim says: on Windows the first field of the line of
  \<^verbatim>\<open>tasklist\<close> without its quotes, in lower case, without one final \<^verbatim>\<open>.exe\<close>; on POSIX
  the text after the last slash of the stripped line of \<^verbatim>\<open>ps\<close>, in lower case. When the
  process names are \<^verbatim>\<open>msmpeng\<close> and \<^verbatim>\<open>explorer\<close> the result is the single name
  \<^verbatim>\<open>Microsoft Defender\<close>.
\<close>

theorem security_classifier:
  "sorted (detect_security_tools h)
   \<and> distinct (detect_security_tools h)
   \<and> set (detect_security_tools h) =
       {product. \<exists>proc \<in> set (get_running_process_names h). SECURITY_PROCESSES proc = Some product}
   \<and> get_running_process_names h =
       (if system h = ''windows'' then
          map (\<lambda>line. let exe = py_lower (strip_char (CHR 0x22) (hd (split_char CHR '','' line)))
                       in if endswith exe ''.exe'' then take (length exe - 4) exe else exe)
            (filter (\<lambda>line. line \<noteq> []) (splitlines (run_command h ''tasklist /fo csv /nh'')))
        else map (\<lambda>line. py_lower (basename (strip line)))
               (tl (splitlines (run_command h ''ps -eo comm''))))
   \<and> (get_running_process_names h = [''msmpeng'', ''explorer'']
        \<longrightarrow> detect_security_tools h = [''Microsoft Defender''])"
proof -
  let ?S = "fold detect_step (get_running_process_names h) {}"
  have fin: "finite ?S"
    by (rule finite_fold_detect_step) simp
  have a: "sorted (detect_security_tools h)"
    by (simp add: detect_security_tools_def)
  have b: "distinct (detect_security_tools h)"
    by (simp add: detect_security_tools_def)
  have c: "set (detect_security_tools h) =
       {product. \<exists>proc \<in> set (get_running_process_names h). SECURITY_PROCESSES proc = Some product}"
    using fin by (simp add: detect_security_tools_def fold_detect_step)
  have d: "get_running_process_names h =
       (if system h = ''windows'' then
          map (\<lambda>line. let exe = py_lower (strip_char (CHR 0x22) (hd (split_char CHR '','' line)))
                       in if endswith exe ''.exe'' then take (length exe - 4) exe else exe)
            (filter (\<lambda>line. line \<noteq> []) (splitlines (run_command h ''tasklist /fo csv /nh'')))
        else map (\<lambda>line. py_lower (basename (strip line)))
               (tl (splitlines (run_command h ''ps -eo comm''))))"
    by (simp add: get_running_process_names_def fold_tasklist_line fold_ps_line)
  have e: "detect_security_tools h = [''Microsoft Defender'']"
    if "get_running_process_names h = [''msmpeng'', ''explorer'']"
    using that by (simp add: detect_security_tools_def detect_step_def table_msmpeng table_explorer)
  from a b c d e show ?thesis by blast
qed

text \<open>
  A Windows host running \<^verbatim>\<open>MsMpEng.exe\<close> and \<^verbatim>\<open>explorer.exe\<close>.
\<close>

theorem security_classifier_witness:
  "detect_security_tools (example_host ''Windows'' [(''tasklist /fo csv /nh'',
      [CHR 0x22] @ ''MsMpEng.exe'' @ [CHR 0x22] @ '','' @ [CHR 0x22] @ ''3104'' @ [CHR 0x22]
      @ [CHR 0x0A] @
      [CHR 0x22] @ ''explorer.exe'' @ [CHR 0x22] @ '','' @ [CHR 0x22] @ ''5120'' @ [CHR 0x22])])
    = [''Microsoft Defender'']"
proof -
  let ?h = "example_host ''Windows'' [(''tasklist /fo csv /nh'',
      [CHR 0x22] @ ''MsMpEng.exe'' @ [CHR 0x22] @ '','' @ [CHR 0x22] @ ''3104'' @ [CHR 0x22]
      @ [CHR 0x0A] @
      [CHR 0x22] @ ''explorer.exe'' @ [CHR 0x22] @ '','' @ [CHR 0x22] @ ''5120'' @ [CHR 0x22])]"
  have "get_running_process_names ?h = [''msmpeng'', ''explorer'']"
    by code_simp
  with security_classifier [of ?h] show ?thesis
    by blast
qed

text \<open>
  Claim C8. Two runs of \<^verbatim>\<open>gather_host_info\<close> on the same host (every command, file and
  environment lookup gives the same answer) at two readings of the clock. When the memory
  collector raises, both runs raise that exception; otherwise, when the processor collector
  raises, both runs raise that one; otherwise both runs return a report. The two reports
  agree in every field but \<^verbatim>\<open>collected_at\<close>, which holds the reading of the clock of its
  run, and their other fields are what the collectors give for the host: identity and
  accounts, the interfaces, vendor, model, processor, memory and disks, and the detected
  products with the method \<^verbatim>\<open>process_scan\<close>. The set \<^verbatim>\<open>detected\<close> is traversed in an
  order that may differ from run to run; \<^verbatim>\<open>sorted\<close> gives the list of the report for
  every order.
\<close>

theorem two_runs_differ_in_timestamp_only:
  "(case get_memory_info h of
      Inl e \<Rightarrow> gather_host_info h now1 = Inl e \<and> gather_host_info h now2 = Inl e
    | Inr mem \<Rightarrow>
        (case get_cpu_info h of
           Inl e \<Rightarrow> gather_host_info h now1 = Inl e \<and> gather_host_info h now2 = Inl e
         | Inr c \<Rightarrow>
             (\<exists>r1 r2. gather_host_info h now1 = Inr r1 \<and> gather_host_info h now2 = Inr r2
                \<and> collected_at r1 = now1 \<and> collected_at r2 = now2
                \<and> r2 = r1\<lparr>collected_at := now2\<rparr>
                \<and> basic_config r1 =
                    \<lparr>hostname = get_hostname h, domain = get_domain_name h,
                     current_user = get_current_user h, os = get_os_info h,
                     users = get_local_users h\<rparr>
                \<and> network r1 = get_network_info h
                \<and> hardware r1 =
                    \<lparr>manufacturer = fst (get_vendor_model h), model = snd (get_vendor_model h),
                     cpu = c, memory_total_bytes = mem_total mem,
                     memory_free_bytes = mem_free mem, disks = get_disk_info h\<rparr>
                \<and> security_tools r1 =
                    \<lparr>detected = detect_security_tools h,
                     detection_method = ''process_scan''\<rparr>)))
   \<and> (\<forall>t. distinct t \<and> set t = fold detect_step (get_running_process_names h) {}
          \<longrightarrow> sort t = detect_security_tools h)"
proof (rule conjI)
  show "case get_memory_info h of
      Inl e \<Rightarrow> gather_host_info h now1 = Inl e \<and> gather_host_info h now2 = Inl e
    | Inr mem \<Rightarrow>
        (case get_cpu_info h of
           Inl e \<Rightarrow> gather_host_info h now1 = Inl e \<and> gather_host_info h now2 = Inl e
         | Inr c \<Rightarrow>
             (\<exists>r1 r2. gather_host_info h now1 = Inr r1 \<and> gather_host_info h now2 = Inr r2
                \<and> collected_at r1 = now1 \<and> collected_at r2 = now2
                \<and> r2 = r1\<lparr>collected_at := now2\<rparr>
                \<and> basic_config r1 =
                    \<lparr>hostname = get_hostname h, domain = get_domain_name h,
                     current_user = get_current_user h, os = get_os_info h,
                     users = get_local_users h\<rparr>
                \<and> network r1 = get_network_info h
                \<and> hardware r1 =
                    \<lparr>manufacturer = fst (get_vendor_model h), model = snd (get_vendor_model h),
                     cpu = c, memory_total_bytes = mem_total mem,
                     memory_free_bytes = mem_free mem, disks = get_disk_info h\<rparr>
                \<and> security_tools r1 =
                    \<lparr>detected = detect_security_tools h,
                     detection_method = ''process_scan''\<rparr>))"
    by (cases "get_memory_info h"; cases "get_cpu_info h"; cases "get_vendor_model h")
      (simp_all add: gather_host_info_def Let_def)
next
  show "\<forall>t. distinct t \<and> set t = fold detect_step (get_running_process_names h) {}
          \<longrightarrow> sort t = detect_security_tools h"
  proof (intro allI impI)
    fix t :: "string list"
    assume t: "distinct t \<and> set t = fold detect_step (get_running_process_names h) {}"
    then have eq: "fold detect_step (get_running_process_names h) {} = set t"
      by simp
    have "detect_security_tools h = sorted_list_of_set (set t)"
      unfolding detect_security_tools_def eq by (rule refl)
    also have "\<dots> = sort (remdups t)"
      by (rule sorted_list_of_set_sort_remdups)
    also have "remdups t = t"
      using t by (simp only: distinct_remdups_id)
    finally show "sort t = detect_security_tools h"
      by (rule sym)
  qed
qed

text \<open>
  A Windows host running \<^verbatim>\<open>Sysmon.exe\<close> and \<^verbatim>\<open>MsMpEng.exe\<close>, read seven seconds
  apart: the products, traversed in the order in which they were found, are sorted into the
  list of the report.
\<close>

theorem two_runs_differ_in_timestamp_only_witness:
  "sort [''Microsoft Sysmon'', ''Microsoft Defender'']
     = detect_security_tools (example_host ''Windows'' [(''tasklist /fo csv /nh'',
        [CHR 0x22] @ ''Sysmon.exe'' @ [CHR 0x22] @ '','' @ [CHR 0x22] @ ''2044'' @ [CHR 0x22]
        @ [CHR 0x0A] @
        [CHR 0x22] @ ''MsMpEng.exe'' @ [CHR 0x22] @ '','' @ [CHR 0x22] @ ''3104'' @ [CHR 0x22])])
   \<and> (\<exists>r1 r2.
        gather_host_info (example_host ''Windows'' [(''tasklist /fo csv /nh'',
          [CHR 0x22] @ ''Sysmon.exe'' @ [CHR 0x22] @ '','' @ [CHR 0x22] @ ''2044'' @ [CHR 0x22]
          @ [CHR 0x0A] @
          [CHR 0x22] @ ''MsMpEng.exe'' @ [CHR 0x22] @ '','' @ [CHR 0x22] @ ''3104'' @ [CHR 0x22])])
          ''2026-01-01T00:00:00Z'' = Inr r1
      \<and> gather_host_info (example_host ''Windows'' [(''tasklist /fo csv /nh'',
          [CHR 0x22] @ ''Sysmon.exe'' @ [CHR 0x22] @ '','' @ [CHR 0x22] @ ''2044'' @ [CHR 0x22]
          @ [CHR 0x0A] @
          [CHR 0x22] @ ''MsMpEng.exe'' @ [CHR 0x22] @ '','' @ [CHR 0x22] @ ''3104'' @ [CHR 0x22])])
          ''2026-01-01T00:00:07Z'' = Inr r2
      \<and> r2 = r1\<lparr>collected_at := ''2026-01-01T00:00:07Z''\<rparr>
      \<and> collected_at r1 = ''2026-01-01T00:00:00Z''
      \<and> detected (security_tools r1) = [''Microsoft Defender'', ''Microsoft Sysmon''])"
proof -
  let ?h = "example_host ''Windows'' [(''tasklist /fo csv /nh'',
        [CHR 0x22] @ ''Sysmon.exe'' @ [CHR 0x22] @ '','' @ [CHR 0x22] @ ''2044'' @ [CHR 0x22]
        @ [CHR 0x0A] @
        [CHR 0x22] @ ''MsMpEng.exe'' @ [CHR 0x22] @ '','' @ [CHR 0x22] @ ''3104'' @ [CHR 0x22])]"
  have names: "get_running_process_names ?h = [''sysmon'', ''msmpeng'']"
    by code_simp
  have table: "SECURITY_PROCESSES ''sysmon'' = Some ''Microsoft Sysmon''"
    "SECURITY_PROCESSES ''msmpeng'' = Some ''Microsoft Defender''"
    by (simp_all add: SECURITY_PROCESSES_def SECURITY_PROCESSES_items_def)
  have order: "distinct [''Microsoft Sysmon'', ''Microsoft Defender'']
      \<and> set [''Microsoft Sysmon'', ''Microsoft Defender'']
          = fold detect_step (get_running_process_names ?h) {}"
    unfolding names by (auto simp: detect_step_def table)
  note sorted = two_runs_differ_in_timestamp_only [of ?h, THEN conjunct2, THEN spec, THEN mp,
      OF order]
  have mem: "get_memory_info ?h = Inr \<lparr>mem_total = None, mem_free = None\<rparr>"
    by code_simp
  have cpu: "get_cpu_info ?h = Inr None"
    by code_simp
  from two_runs_differ_in_timestamp_only
    [of ?h "''2026-01-01T00:00:00Z''" "''2026-01-01T00:00:07Z''", THEN conjunct1]
  obtain r1 r2 where r:
    "gather_host_info ?h ''2026-01-01T00:00:00Z'' = Inr r1"
    "gather_host_info ?h ''2026-01-01T00:00:07Z'' = Inr r2"
    "collected_at r1 = ''2026-01-01T00:00:00Z''"
    "r2 = r1\<lparr>collected_at := ''2026-01-01T00:00:07Z''\<rparr>"
    "security_tools r1 = \<lparr>detected = detect_security_tools ?h,
                     detection_method = ''process_scan''\<rparr>"
    unfolding mem cpu by auto
  have "detected (security_tools r1) = [''Microsoft Defender'', ''Microsoft Sysmon'']"
    unfolding r(5) sorted [symmetric] by code_simp
  with r sorted show ?thesis
    by blast
qed

section \<open>Memory on macOS\<close>












section \<open>The Windows parser on two adapter blocks\<close>



lemma dropWhile_all_Nil: "(\<forall>x \<in> set (dropWhile P s). P x) \<longleftrightarrow> dropWhile P s = []"
proof (cases "dropWhile P s")
  case Nil
  then show ?thesis by (simp del: dropWhile_eq_Nil_conv)
next
  case (Cons a as)
  with hd_dropWhile [of P s] have "\<not> P a" by simp
  with Cons show ?thesis by auto
qed

lemma takeWhile_until: "x \<notin> set k \<Longrightarrow> takeWhile (\<lambda>c. c \<noteq> x) (k @ x # v) = k"
  by (induction k) auto

lemma dropWhile_until: "x \<notin> set k \<Longrightarrow> dropWhile (\<lambda>c. c \<noteq> x) (k @ x # v) = x # v"
  by (induction k) auto

lemma takeWhile_absent: "x \<notin> set k \<Longrightarrow> takeWhile (\<lambda>c. c \<noteq> x) k = k"
  by (induction k) auto

lemma strip_eq_Nil_iff: "strip s = [] \<longleftrightarrow> (\<forall>c \<in> set s. isspace c)"
proof -
  have "strip s = [] \<longleftrightarrow> (\<forall>x \<in> set (dropWhile isspace s). isspace x)"
    by (simp add: strip_def lstrip_def rstrip_def dropWhile_eq_Nil_conv)
  also have "\<dots> \<longleftrightarrow> dropWhile isspace s = []"
    by (rule dropWhile_all_Nil)
  also have "\<dots> \<longleftrightarrow> (\<forall>c \<in> set s. isspace c)"
    by (simp add: dropWhile_eq_Nil_conv)
  finally show ?thesis .
qed

lemma split1_at_sep: "sep \<notin> set k \<Longrightarrow> split1 sep (k @ sep # v) = [k, v]"
  by (simp add: split1_def takeWhile_until dropWhile_until)

lemma hd_split_char: "hd (split_char sep s) = takeWhile (\<lambda>c. c \<noteq> sep) s"
  using split_char_nonempty by (induction s) (auto split: list.splits)

lemma lstrip_pad: "list_all isspace pad \<Longrightarrow> lstrip (pad @ s) = lstrip s"
  by (simp add: lstrip_def list_all_iff dropWhile_append2)

lemma strip_pad: "list_all isspace pad \<Longrightarrow> strip (pad @ s) = strip s"
  by (simp add: strip_def lstrip_pad)

lemma colon_not_space: "\<not> isspace (CHR '':'')"
  by (simp add: isspace_def)

lemma windows_line_blank: "strip line = [] \<Longrightarrow> windows_line line st = flush st"
  by (simp add: windows_line_def)

lemma header_not_blank: "is_adapter_header line \<Longrightarrow> strip line \<noteq> []"
  by (auto simp: is_adapter_header_def endswith_def)

lemma windows_line_header:
  "is_adapter_header line \<Longrightarrow>
   windows_line line st =
     (fst (flush st)\<lparr>name := Some (rstrip_char CHR '':'' (strip line))\<rparr>, snd (flush st))"
  using header_not_blank [of line] by (simp add: windows_line_def split: prod.splits)

lemma windows_line_physical:
  assumes "CHR '':'' \<notin> set k" and "substring_in ''physical address'' (py_lower (strip k))"
    and "\<not> is_adapter_header (k @ CHR '':'' # v)"
  shows "windows_line (k @ CHR '':'' # v) (a, ifs) = (setdefault_mac (strip v) a, ifs)"
proof -
  have "strip (k @ CHR '':'' # v) \<noteq> []"
    using colon_not_space by (auto simp: strip_eq_Nil_iff)
  then show ?thesis
    using assms by (simp add: windows_line_def split1_at_sep Let_def)
qed

lemma not_physical: "\<not> substring_in ''physical address'' ''ipv4 address''"
  by code_simp

lemma strip_fix_lstrip: "strip s = s \<Longrightarrow> lstrip s = s"
  by (metis lstrip_idem lstrip_rstrip_commute strip_def)

lemma strip_fix_rstrip: "strip s = s \<Longrightarrow> rstrip s = s"
  by (metis rstrip_idem strip_def)

lemma lstrip_fix: "lstrip s = s \<Longrightarrow> s = [] \<or> \<not> isspace (hd s)"
  using hd_dropWhile [of isspace s] by (auto simp: lstrip_def)

lemma lstrip_append: "s \<noteq> [] \<Longrightarrow> lstrip s = s \<Longrightarrow> lstrip (s @ t) = s @ t"
  using lstrip_fix [of s] by (cases s) (auto simp: lstrip_def)

lemma rstrip_append_nonspace: "\<not> isspace x \<Longrightarrow> rstrip (u @ x # w) = u @ x # rstrip w"
  by (simp add: rstrip_def dropWhile_append)

lemma annotated_value:
  assumes "CHR ''('' \<notin> set ip" and "strip ip = ip" and "ann = [] \<or> hd ann = CHR ''(''"
  shows "strip (takeWhile (\<lambda>c. c \<noteq> CHR ''('') (strip (ip @ ann))) = ip"
proof (cases ann)
  case Nil
  with assms show ?thesis
    by (simp add: takeWhile_absent)
next
  case (Cons x w)
  with assms(3) have x: "x = CHR ''(''"
    by simp
  have ns: "\<not> isspace (CHR ''('')"
    by (simp add: isspace_def)
  have "lstrip (ip @ ann) = ip @ ann"
  proof (cases ip)
    case Nil
    with Cons x ns show ?thesis by (simp add: lstrip_def)
  next
    case (Cons c cs)
    then show ?thesis
      using strip_fix_lstrip [OF assms(2)] by (intro lstrip_append) simp_all
  qed
  then have "strip (ip @ ann) = ip @ CHR ''('' # rstrip w"
    using Cons x ns by (simp add: strip_def rstrip_append_nonspace)
  then show ?thesis
    using assms(1,2) by (simp add: takeWhile_until)
qed

lemma windows_line_ipv4:
  assumes "CHR '':'' \<notin> set k" and "py_lower (strip k) = ''ipv4 address''"
    and "\<not> is_adapter_header (k @ CHR '':'' # pad @ ip @ ann)"
    and "list_all isspace pad" and "CHR ''('' \<notin> set ip" and "strip ip = ip"
    and "ann = [] \<or> hd ann = CHR ''(''"
  shows "windows_line (k @ CHR '':'' # pad @ ip @ ann) (a, ifs) = (append_ipv4 ip a, ifs)"
proof -
  have ne: "strip (k @ CHR '':'' # pad @ ip @ ann) \<noteq> []"
    using colon_not_space by (auto simp: strip_eq_Nil_iff)
  have "\<not> isspace (CHR ''('')"
    by (simp add: isspace_def)
  then have "CHR ''('' \<notin> set pad"
    using assms(4) by (auto simp: list_all_iff)
  then have "takeWhile (\<lambda>c. c \<noteq> CHR ''('') (pad @ ip @ ann) = pad @ ip"
    using assms(5,7) takeWhile_until [of "CHR ''(''" "pad @ ip" "tl ann"]
      takeWhile_absent [of "CHR ''(''" "pad @ ip"]
    by (cases ann) auto
  moreover have "strip (pad @ ip @ ann) = strip (ip @ ann)"
    using assms(4) by (rule strip_pad)
  ultimately show ?thesis
    using assms ne not_physical annotated_value [OF assms(5,6,7)]
    by (simp add: windows_line_def split1_at_sep Let_def hd_split_char)
qed


lemma setdefault_mac_present: "mac a \<noteq> None \<Longrightarrow> setdefault_mac v a = a"
  by (auto simp: setdefault_mac_def)

lemma fold_later_physical:
  assumes "\<forall>l \<in> set ls. \<exists>k v. l = k @ CHR '':'' # v \<and> CHR '':'' \<notin> set k
              \<and> substring_in ''physical address'' (py_lower (strip k))
              \<and> \<not> is_adapter_header l"
    and "mac a \<noteq> None"
  shows "fold windows_line ls (a, ifs) = (a, ifs)"
  using assms
proof (induction ls)
  case Nil
  then show ?case by simp
next
  case (Cons l ls)
  then obtain k v where l: "l = k @ CHR '':'' # v" "CHR '':'' \<notin> set k"
      "substring_in ''physical address'' (py_lower (strip k))" "\<not> is_adapter_header l"
    by auto
  then have "windows_line l (a, ifs) = (setdefault_mac (strip v) a, ifs)"
    using windows_line_physical [of k v a ifs] by simp
  with Cons show ?case
    by (simp add: setdefault_mac_present)
qed

text \<open>
  The key of the address line written without dot leaders. The output of
  \<^verbatim>\<open>ipconfig /all\<close> has two adapter blocks separated by a blank line. Each block is a
  header line (not indented, ending in a colon), a line whose key contains
  \<^verbatim>\<open>Physical Address\<close> (in any case), possibly further such lines, and a line whose key
  is \<^verbatim>\<open>IPv4 Address\<close> (in any case, nothing else in the key) and whose value is an
  address followed by nothing or by an annotation in parentheses such as
  \<^verbatim>\<open>(Preferred)\<close>. Then the parser returns exactly two interfaces: each has the name of
  its header without the final colons, the MAC of the first \<^verbatim>\<open>Physical Address\<close> line of
  its own block (the later ones are ignored), and the one address of its block without the
  annotation.
\<close>

lemma windows_blocks_exact_key:
  assumes lines: "splitlines (run_command h ''ipconfig /all'') =
        [header_a, key_a @ '':'' @ val_a] @ later_a @ [label_a @ '':'' @ pad_a @ ip_a @ note_a, blank,
         header_b, key_b @ '':'' @ val_b] @ later_b @ [label_b @ '':'' @ pad_b @ ip_b @ note_b]"
    and header1: "is_adapter_header header_a"
    and header2: "is_adapter_header header_b"
    and blank: "strip blank = []"
    and physical1: "CHR '':'' \<notin> set key_a"
      "substring_in ''physical address'' (py_lower (strip key_a))"
      "\<not> is_adapter_header (key_a @ '':'' @ val_a)"
    and physical2: "CHR '':'' \<notin> set key_b"
      "substring_in ''physical address'' (py_lower (strip key_b))"
      "\<not> is_adapter_header (key_b @ '':'' @ val_b)"
    and extra1: "\<forall>l \<in> set later_a. \<exists>k v. l = k @ '':'' @ v \<and> CHR '':'' \<notin> set k
              \<and> substring_in ''physical address'' (py_lower (strip k))
              \<and> \<not> is_adapter_header l"
    and extra2: "\<forall>l \<in> set later_b. \<exists>k v. l = k @ '':'' @ v \<and> CHR '':'' \<notin> set k
              \<and> substring_in ''physical address'' (py_lower (strip k))
              \<and> \<not> is_adapter_header l"
    and address1: "CHR '':'' \<notin> set label_a" "py_lower (strip label_a) = ''ipv4 address''"
      "\<not> is_adapter_header (label_a @ '':'' @ pad_a @ ip_a @ note_a)"
      "list_all isspace pad_a" "CHR ''('' \<notin> set ip_a" "strip ip_a = ip_a"
      "note_a = [] \<or> hd note_a = CHR ''(''"
    and address2: "CHR '':'' \<notin> set label_b" "py_lower (strip label_b) = ''ipv4 address''"
      "\<not> is_adapter_header (label_b @ '':'' @ pad_b @ ip_b @ note_b)"
      "list_all isspace pad_b" "CHR ''('' \<notin> set ip_b" "strip ip_b = ip_b"
      "note_b = [] \<or> hd note_b = CHR ''(''"
  shows "parse_ip_config_windows h =
      [\<lparr>name = Some (rstrip_char CHR '':'' (strip header_a)), mac = Some (strip val_a),
        ipv4 = Some [ip_a], ipv6 = None\<rparr>,
       \<lparr>name = Some (rstrip_char CHR '':'' (strip header_b)), mac = Some (strip val_b),
        ipv4 = Some [ip_b], ipv6 = None\<rparr>]"
proof -
  let ?n1 = "rstrip_char CHR '':'' (strip header_a)" and ?n2 = "rstrip_char CHR '':'' (strip header_b)"
  let ?a1 = "\<lparr>name = Some ?n1, mac = Some (strip val_a), ipv4 = None, ipv6 = None\<rparr>"
  let ?A1 = "\<lparr>name = Some ?n1, mac = Some (strip val_a), ipv4 = Some [ip_a], ipv6 = None\<rparr>"
  let ?a2 = "\<lparr>name = Some ?n2, mac = Some (strip val_b), ipv4 = None, ipv6 = None\<rparr>"
  let ?A2 = "\<lparr>name = Some ?n2, mac = Some (strip val_b), ipv4 = Some [ip_b], ipv6 = None\<rparr>"
  have s1: "windows_line header_a (empty_dict, []) = (empty_dict\<lparr>name := Some ?n1\<rparr>, [])"
    using header1 by (simp add: windows_line_header flush_def)
  have s2: "windows_line (key_a @ '':'' @ val_a) (empty_dict\<lparr>name := Some ?n1\<rparr>, []) = (?a1, [])"
    using physical1 by (simp add: windows_line_physical setdefault_mac_def empty_dict_def)
  have s3: "fold windows_line later_a (?a1, []) = (?a1, [])"
    using extra1 by (intro fold_later_physical) simp_all
  have s4: "windows_line (label_a @ '':'' @ pad_a @ ip_a @ note_a) (?a1, []) = (?A1, [])"
    using address1 by (simp add: windows_line_ipv4 append_ipv4_def)
  have s5: "windows_line blank (?A1, []) = (empty_dict, [?A1])"
    using blank by (simp add: windows_line_blank flush_def empty_dict_def)
  have s6: "windows_line header_b (empty_dict, [?A1]) = (empty_dict\<lparr>name := Some ?n2\<rparr>, [?A1])"
    using header2 by (simp add: windows_line_header flush_def)
  have s7: "windows_line (key_b @ '':'' @ val_b) (empty_dict\<lparr>name := Some ?n2\<rparr>, [?A1]) = (?a2, [?A1])"
    using physical2 by (simp add: windows_line_physical setdefault_mac_def empty_dict_def)
  have s8: "fold windows_line later_b (?a2, [?A1]) = (?a2, [?A1])"
    using extra2 by (intro fold_later_physical) simp_all
  have s9: "windows_line (label_b @ '':'' @ pad_b @ ip_b @ note_b) (?a2, [?A1]) = (?A2, [?A1])"
    using address2 by (simp add: windows_line_ipv4 append_ipv4_def)
  have "fold windows_line (splitlines (run_command h ''ipconfig /all'')) (empty_dict, [])
      = (?A2, [?A1])"
    unfolding lines by (simp only: fold_append fold_simps comp_apply s1 s2 s3 s4 s5 s6 s7 s8 s9)
  moreover have "run_command h ''ipconfig /all'' \<noteq> []"
    using lines by auto
  ultimately show ?thesis
    by (simp add: parse_ip_config_windows_def empty_dict_def)
qed


text \<open>
  Two adapters; the second block has two \<^verbatim>\<open>Physical Address\<close> lines, of which the first
  one is recorded.
\<close>

lemma windows_blocks_exact_key_example:
  "parse_ip_config_windows (example_host ''Windows'' [(''ipconfig /all'',
      ''Ethernet adapter Ethernet:\<newline>'' @
      ''   Physical Address. . . . . . . . . : 00-11-22-33-44-55\<newline>'' @
      ''   IPv4 Address: 192.168.1.5(Preferred)\<newline>'' @
      ''\<newline>'' @
      ''Wireless LAN adapter Wi-Fi:\<newline>'' @
      ''   Physical Address: 66-77-88-99-AA-BB\<newline>'' @
      ''   Physical Address: DE-AD-BE-EF-00-00\<newline>'' @
      ''   IPv4 Address: 10.0.0.7(Preferred)'')])
    = [\<lparr>name = Some ''Ethernet adapter Ethernet'', mac = Some ''00-11-22-33-44-55'',
        ipv4 = Some [''192.168.1.5''], ipv6 = None\<rparr>,
       \<lparr>name = Some ''Wireless LAN adapter Wi-Fi'', mac = Some ''66-77-88-99-AA-BB'',
        ipv4 = Some [''10.0.0.7''], ipv6 = None\<rparr>]"
proof -
  let ?h = "example_host ''Windows'' [(''ipconfig /all'',
      ''Ethernet adapter Ethernet:\<newline>'' @
      ''   Physical Address. . . . . . . . . : 00-11-22-33-44-55\<newline>'' @
      ''   IPv4 Address: 192.168.1.5(Preferred)\<newline>'' @
      ''\<newline>'' @
      ''Wireless LAN adapter Wi-Fi:\<newline>'' @
      ''   Physical Address: 66-77-88-99-AA-BB\<newline>'' @
      ''   Physical Address: DE-AD-BE-EF-00-00\<newline>'' @
      ''   IPv4 Address: 10.0.0.7(Preferred)'')]"
  have no_extra: "\<forall>l \<in> set []. \<exists>k v. l = k @ '':'' @ v \<and> CHR '':'' \<notin> set k
              \<and> substring_in ''physical address'' (py_lower (strip k))
              \<and> \<not> is_adapter_header l"
    by simp
  have extra: "\<forall>l \<in> set [''   Physical Address: DE-AD-BE-EF-00-00''].
              \<exists>k v. l = k @ '':'' @ v \<and> CHR '':'' \<notin> set k
              \<and> substring_in ''physical address'' (py_lower (strip k))
              \<and> \<not> is_adapter_header l"
  proof
    fix l :: string
    assume "l \<in> set [''   Physical Address: DE-AD-BE-EF-00-00'']"
    then have l: "l = ''   Physical Address: DE-AD-BE-EF-00-00''"
      by simp
    show "\<exists>k v. l = k @ '':'' @ v \<and> CHR '':'' \<notin> set k
              \<and> substring_in ''physical address'' (py_lower (strip k))
              \<and> \<not> is_adapter_header l"
      unfolding l
      by (rule exI [of _ "''   Physical Address''"], rule exI [of _ "'' DE-AD-BE-EF-00-00''"])
        code_simp
  qed
  have "parse_ip_config_windows ?h =
      [\<lparr>name = Some (rstrip_char CHR '':'' (strip ''Ethernet adapter Ethernet:'')),
        mac = Some (strip '' 00-11-22-33-44-55''), ipv4 = Some [''192.168.1.5''], ipv6 = None\<rparr>,
       \<lparr>name = Some (rstrip_char CHR '':'' (strip ''Wireless LAN adapter Wi-Fi:'')),
        mac = Some (strip '' 66-77-88-99-AA-BB''), ipv4 = Some [''10.0.0.7''], ipv6 = None\<rparr>]"
  proof (rule windows_blocks_exact_key [where
        key_a = "''   Physical Address. . . . . . . . . ''" and later_a = "[]"
        and label_a = "''   IPv4 Address''" and pad_a = "'' ''" and note_a = "''(Preferred)''"
        and blank = "[]"
        and key_b = "''   Physical Address''"
        and later_b = "[''   Physical Address: DE-AD-BE-EF-00-00'']"
        and label_b = "''   IPv4 Address''" and pad_b = "'' ''" and note_b = "''(Preferred)''"])
    show "\<forall>l \<in> set []. \<exists>k v. l = k @ '':'' @ v \<and> CHR '':'' \<notin> set k
              \<and> substring_in ''physical address'' (py_lower (strip k))
              \<and> \<not> is_adapter_header l"
      by (rule no_extra)
    show "\<forall>l \<in> set [''   Physical Address: DE-AD-BE-EF-00-00''].
              \<exists>k v. l = k @ '':'' @ v \<and> CHR '':'' \<notin> set k
              \<and> substring_in ''physical address'' (py_lower (strip k))
              \<and> \<not> is_adapter_header l"
      by (rule extra)
  qed code_simp+
  also have "\<dots> =
      [\<lparr>name = Some ''Ethernet adapter Ethernet'', mac = Some ''00-11-22-33-44-55'',
        ipv4 = Some [''192.168.1.5''], ipv6 = None\<rparr>,
       \<lparr>name = Some ''Wireless LAN adapter Wi-Fi'', mac = Some ''66-77-88-99-AA-BB'',
        ipv4 = Some [''10.0.0.7''], ipv6 = None\<rparr>]"
    by code_simp
  finally show ?thesis .
qed

text \<open>
  Claim C5. \<^verbatim>\<open>ipconfig /all\<close> pads every key with dot leaders up to the colon, as in
  \<^verbatim>\<open>IPv4 Address. . . . . . . . . . . : 192.168.1.5(Preferred)\<close>. The parser looks for
  \<^verbatim>\<open>physical address\<close> and for \<^verbatim>\<open>ipv6 address\<close> anywhere in the key, but compares
  the whole key with \<^verbatim>\<open>ipv4 address\<close>, which a padded key never equals. Two adapter
  blocks separated by a blank line, each with one \<^verbatim>\<open>Physical Address\<close> line and one
  \<^verbatim>\<open>IPv4 Address\<close> line with the keys as \<^verbatim>\<open>ipconfig\<close> pads them: two interfaces are
  returned, each with the MAC of its own block, and neither has an IPv4 list, where the
  claim says a list of one address. In a block with a padded IPv6 line and a padded IPv4
  line the IPv6 address is recorded, without its annotation, and the IPv4 address is not.
\<close>

theorem ipv4_key_with_dot_leaders_not_recorded:
  "parse_ip_config_windows (example_host ''Windows'' [(''ipconfig /all'',
      ''Ethernet adapter Ethernet:\<newline>'' @
      ''   Physical Address. . . . . . . . . : 00-11-22-33-44-55\<newline>'' @
      ''   IPv4 Address. . . . . . . . . . . : 192.168.1.5(Preferred)\<newline>'' @
      ''\<newline>'' @
      ''Wireless LAN adapter Wi-Fi:\<newline>'' @
      ''   Physical Address. . . . . . . . . : 66-77-88-99-AA-BB\<newline>'' @
      ''   IPv4 Address. . . . . . . . . . . : 10.0.0.7(Preferred)'')])
    = [\<lparr>name = Some ''Ethernet adapter Ethernet'', mac = Some ''00-11-22-33-44-55'',
        ipv4 = None, ipv6 = None\<rparr>,
       \<lparr>name = Some ''Wireless LAN adapter Wi-Fi'', mac = Some ''66-77-88-99-AA-BB'',
        ipv4 = None, ipv6 = None\<rparr>]
   \<and> parse_ip_config_windows (example_host ''Windows'' [(''ipconfig /all'',
      ''Ethernet adapter Ethernet:\<newline>'' @
      ''   Physical Address. . . . . . . . . : 00-11-22-33-44-55\<newline>'' @
      ''   Link-local IPv6 Address . . . . . : fe80::1%12(Preferred)\<newline>'' @
      ''   IPv4 Address. . . . . . . . . . . : 192.168.1.5(Preferred)'')])
    = [\<lparr>name = Some ''Ethernet adapter Ethernet'', mac = Some ''00-11-22-33-44-55'',
        ipv4 = None, ipv6 = Some [''fe80::1%12'']\<rparr>]"
  by code_simp

section \<open>The POSIX parsers: which entries are returned, and which MAC\<close>

subsection \<open>The Linux dictionary\<close>

lemma in_keys_iff: "k \<in> fst ` set m \<longleftrightarrow> map_of m k \<noteq> None"
  by (simp add: map_of_eq_None_iff)

lemma setdefault_keys:
  "map fst (fst (setdefault k d m)) = (if map_of m k = None then map fst m @ [k] else map fst m)"
  by (simp add: setdefault_def split: option.splits)

lemma setdefault_lookup:
  "map_of (fst (setdefault k d m)) = (map_of m)(k \<mapsto> snd (setdefault k d m))"
  by (auto simp: setdefault_def fun_eq_iff map_add_def split: option.splits)

lemma setdefault_entry:
  "snd (setdefault k d m) = (case map_of m k of None \<Rightarrow> d | Some v \<Rightarrow> v)"
  by (simp add: setdefault_def split: option.splits)

lemma update_present:
  "map_of m k \<noteq> None \<Longrightarrow> map fst (AList.update k v m) = map fst m"
  by (simp add: update_keys in_keys_iff)

text \<open>The keys after one record.\<close>

lemma linux_record_keys:
  "map fst (linux_record line k family ip m) =
     (if map_of m k = None then map fst m @ [k] else map fst m)"
proof -
  obtain m' v where sd: "setdefault k (empty_dict\<lparr>name := Some k\<rparr>) m = (m', v)"
    by (cases "setdefault k (empty_dict\<lparr>name := Some k\<rparr>) m")
  have "map_of m' k \<noteq> None"
    using setdefault_lookup [of k _ m] sd by (metis fst_conv fun_upd_same option.distinct(1))
  then have "map fst (linux_record line k family ip m) = map fst m'"
    by (simp add: linux_record_def sd update_present split: option.splits)
  then show ?thesis
    using setdefault_keys [of k _ m] sd by (metis fst_conv)
qed

text \<open>The entries after one record: only the entry of the interface of the line changes.\<close>

lemma linux_record_other:
  "k' \<noteq> k \<Longrightarrow> map_of (linux_record line k family ip m) k' = map_of m k'"
  using setdefault_lookup [of k "empty_dict\<lparr>name := Some k\<rparr>" m]
  by (cases "setdefault k (empty_dict\<lparr>name := Some k\<rparr>) m")
    (auto simp: linux_record_def update_conv' split: option.splits)

lemma linux_record_own:
  assumes "map_of (linux_record line k family ip m) k = Some v'"
  shows "name v' = (case map_of m k of None \<Rightarrow> Some k | Some v \<Rightarrow> name v)"
    and "mac v' = (case (if family = ''link'' then re_search m_link_mac line else None) of
                    Some g \<Rightarrow> Some g
                  | None \<Rightarrow> (case map_of m k of None \<Rightarrow> None | Some v \<Rightarrow> mac v))"
proof -
  let ?d = "empty_dict\<lparr>name := Some k\<rparr>"
  obtain m' v where sd: "setdefault k ?d m = (m', v)"
    by (cases "setdefault k ?d m")
  have v: "v = (case map_of m k of None \<Rightarrow> ?d | Some v \<Rightarrow> v)"
    using setdefault_entry [of k ?d m] sd by simp
  have m': "map_of m' k = Some v"
    using setdefault_lookup [of k ?d m] sd by (metis fst_conv snd_conv fun_upd_same)
  have nv: "name v = (case map_of m k of None \<Rightarrow> Some k | Some v \<Rightarrow> name v)"
    and mv: "mac v = (case map_of m k of None \<Rightarrow> None | Some v \<Rightarrow> mac v)"
    by (simp_all add: v empty_dict_def split: option.splits)
  show "name v' = (case map_of m k of None \<Rightarrow> Some k | Some v \<Rightarrow> name v)"
    using assms m' nv
    by (auto simp: linux_record_def sd update_conv' append_ipv4_def append_ipv6_def
        split: option.splits if_splits)
  show "mac v' = (case (if family = ''link'' then re_search m_link_mac line else None) of
                    Some g \<Rightarrow> Some g
                  | None \<Rightarrow> (case map_of m k of None \<Rightarrow> None | Some v \<Rightarrow> mac v))"
    using assms m' mv
    by (auto simp: linux_record_def sd update_conv' append_ipv4_def append_ipv6_def
        split: option.splits if_splits)
qed

lemma linux_record_defined: "map_of (linux_record line k family ip m) k \<noteq> None"
proof -
  have "k \<in> set (map fst (linux_record line k family ip m))"
    by (simp add: linux_record_keys in_keys_iff)
  then show ?thesis
    by (simp add: in_keys_iff)
qed

lemma linux_line_keys:
  "map fst (linux_line l m) =
     (if 4 \<le> length (split_ws l) \<and> map_of m (split_ws l ! 1) = None
      then map fst m @ [split_ws l ! 1] else map fst m)"
  by (simp add: linux_line_def Let_def linux_record_keys del: One_nat_def)

lemma linux_line_distinct: "distinct (map fst m) \<Longrightarrow> distinct (map fst (linux_line l m))"
  by (simp add: linux_line_keys in_keys_iff del: One_nat_def)

lemma linux_line_named:
  assumes "\<forall>k v. map_of m k = Some v \<longrightarrow> name v = Some k"
  shows "\<forall>k v. map_of (linux_line l m) k = Some v \<longrightarrow> name v = Some k"
proof (intro allI impI)
  fix k v
  assume kv: "map_of (linux_line l m) k = Some v"
  show "name v = Some k"
  proof (cases "4 \<le> length (split_ws l)")
    case False
    with kv assms show ?thesis
      by (simp add: linux_line_def)
  next
    case True
    let ?k = "split_ws l ! 1"
    have ll: "linux_line l m
        = linux_record l ?k (split_ws l ! 2) (hd (split_char CHR ''/'' (split_ws l ! 3))) m"
      using True by (simp add: linux_line_def Let_def del: One_nat_def)
    show ?thesis
    proof (cases "k = ?k")
      case False
      with kv assms show ?thesis
        unfolding ll by (simp add: linux_record_other del: One_nat_def)
    next
      case k: True
      from kv have "name v = (case map_of m ?k of None \<Rightarrow> Some ?k | Some v \<Rightarrow> name v)"
        unfolding ll k by (rule linux_record_own(1))
      with assms show ?thesis
        unfolding k by (simp split: option.splits del: One_nat_def)
    qed
  qed
qed

lemma fold_linux_line_distinct:
  "distinct (map fst m) \<Longrightarrow> distinct (map fst (fold linux_line ls m))"
  by (induction ls arbitrary: m) (simp_all add: linux_line_distinct)

lemma fold_linux_line_named:
  "\<forall>k v. map_of m k = Some v \<longrightarrow> name v = Some k \<Longrightarrow>
   \<forall>k v. map_of (fold linux_line ls m) k = Some v \<longrightarrow> name v = Some k"
proof (induction ls arbitrary: m)
  case Nil
  then show ?case by simp
next
  case (Cons l ls)
  have "fold linux_line (l # ls) m = fold linux_line ls (linux_line l m)"
    by simp
  then show ?case
    using Cons.IH [OF linux_line_named [OF Cons.prems]] by (simp only:)
qed

lemma fold_linux_line_keys:
  "set (map fst (fold linux_line ls m)) =
     set (map fst m) \<union> {split_ws l ! 1 | l. l \<in> set ls \<and> 4 \<le> length (split_ws l)}"
proof (induction ls arbitrary: m)
  case Nil
  then show ?case by simp
next
  case (Cons l ls)
  have step: "set (map fst (linux_line l m)) =
      set (map fst m) \<union> (if 4 \<le> length (split_ws l) then {split_ws l ! 1} else {})"
    by (auto simp: linux_line_keys in_keys_iff simp del: One_nat_def)
  have "set (map fst (fold linux_line (l # ls) m))
      = set (map fst (fold linux_line ls (linux_line l m)))"
    by simp
  also have "\<dots> = set (map fst (linux_line l m))
      \<union> {split_ws l ! 1 | l. l \<in> set ls \<and> 4 \<le> length (split_ws l)}"
    by (rule Cons.IH)
  also have "\<dots> = set (map fst m) \<union> {split_ws x ! 1 | x. x \<in> set (l # ls) \<and> 4 \<le> length (split_ws x)}"
    unfolding step by (auto simp del: One_nat_def)
  finally show ?case .
qed

lemma names_of_dictionary:
  assumes "distinct (map fst m)" and "\<forall>k v. map_of m k = Some v \<longrightarrow> name v = Some k"
  shows "map name (map snd m) = map Some (map fst m)"
proof -
  have "name v = Some k" if "(k, v) \<in> set m" for k v
    using that assms by simp
  then show ?thesis
    by (auto simp: map_eq_conv)
qed

text \<open>The MAC of an interface after one line.\<close>

lemma linux_line_mac:
  "(case map_of (linux_line l m) k of None \<Rightarrow> None | Some v \<Rightarrow> mac v) =
     (case (if 4 \<le> length (split_ws l) \<and> split_ws l ! 1 = k \<and> split_ws l ! 2 = ''link''
            then re_search m_link_mac l else None) of
        Some g \<Rightarrow> Some g
      | None \<Rightarrow> (case map_of m k of None \<Rightarrow> None | Some v \<Rightarrow> mac v))"
proof (cases "4 \<le> length (split_ws l)")
  case False
  then show ?thesis
    by (simp add: linux_line_def)
next
  case True
  let ?k = "split_ws l ! 1"
  have ll: "linux_line l m
      = linux_record l ?k (split_ws l ! 2) (hd (split_char CHR ''/'' (split_ws l ! 3))) m"
    using True by (simp add: linux_line_def Let_def del: One_nat_def)
  show ?thesis
  proof (cases "k = ?k")
    case False
    with True show ?thesis
      unfolding ll by (auto simp: linux_record_other simp del: One_nat_def)
  next
    case k: True
    have "map_of (linux_line l m) ?k \<noteq> None"
      unfolding ll by (rule linux_record_defined)
    then obtain v' where v': "map_of (linux_line l m) ?k = Some v'"
      by (auto simp: not_None_eq simp del: One_nat_def)
    then have "mac v' =
        (case (if split_ws l ! 2 = ''link'' then re_search m_link_mac l else None) of
           Some g \<Rightarrow> Some g
         | None \<Rightarrow> (case map_of m ?k of None \<Rightarrow> None | Some v \<Rightarrow> mac v))"
      unfolding ll by (rule linux_record_own(2))
    with True v' show ?thesis
      unfolding k by (simp del: One_nat_def)
  qed
qed

lemma fold_linux_line_mac:
  "(case map_of (fold linux_line ls m) k of None \<Rightarrow> None | Some v \<Rightarrow> mac v) =
     (case List.map_filter (re_search m_link_mac)
             (filter (\<lambda>l. 4 \<le> length (split_ws l) \<and> split_ws l ! 1 = k
                          \<and> split_ws l ! 2 = ''link'') ls) of
        [] \<Rightarrow> (case map_of m k of None \<Rightarrow> None | Some v \<Rightarrow> mac v)
      | g # gs \<Rightarrow> Some (last (g # gs)))"
proof (induction ls arbitrary: m)
  case Nil
  then show ?case by (simp add: map_filter_simps)
next
  case (Cons l ls)
  let ?P = "\<lambda>l. 4 \<le> length (split_ws l) \<and> split_ws l ! 1 = k \<and> split_ws l ! 2 = ''link''"
  let ?base = "\<lambda>m. case map_of m k of None \<Rightarrow> None | Some v \<Rightarrow> mac v"
  define rest where "rest = List.map_filter (re_search m_link_mac) (filter ?P ls)"
  define final where "final = ?base (fold linux_line (l # ls) m)"
  define here where "here = ?base (linux_line l m)"
  define before where "before = ?base m"
  have ih: "final = (case rest of [] \<Rightarrow> here | g # gs \<Rightarrow> Some (last (g # gs)))"
    unfolding final_def rest_def here_def using Cons.IH [of "linux_line l m"] by simp
  have goal: "final =
      (case List.map_filter (re_search m_link_mac) (filter ?P (l # ls)) of
         [] \<Rightarrow> before | g # gs \<Rightarrow> Some (last (g # gs)))"
  proof (cases "if ?P l then re_search m_link_mac l else None")
    case None
    then have eq1: "List.map_filter (re_search m_link_mac) (filter ?P (l # ls)) = rest"
      unfolding rest_def
      by (auto simp: map_filter_simps split: if_splits simp del: One_nat_def)
    from None have eq2: "here = before"
      unfolding here_def before_def linux_line_mac by simp
    show ?thesis
      unfolding ih eq1 eq2 by (rule refl)
  next
    case (Some g)
    then have eq1: "List.map_filter (re_search m_link_mac) (filter ?P (l # ls)) = g # rest"
      unfolding rest_def
      by (auto simp: map_filter_simps split: if_splits simp del: One_nat_def)
    from Some have eq2: "here = Some g"
      unfolding here_def linux_line_mac by simp
    show ?thesis
      unfolding ih eq1 eq2 by (cases rest) simp_all
  qed
  then show ?case
    unfolding final_def before_def .
qed

subsection \<open>The BSD accumulator\<close>

lemma fst_flush: "fst (flush st) = empty_dict"
  by (cases st) (simp add: flush_def)

lemma flush_nonempty:
  "\<forall>a \<in> set (snd st). a \<noteq> empty_dict \<Longrightarrow> \<forall>a \<in> set (snd (flush st)). a \<noteq> empty_dict"
  by (cases st) (auto simp: flush_def)

lemma bsd_line_nonempty:
  "\<forall>a \<in> set (snd st). a \<noteq> empty_dict \<Longrightarrow> \<forall>a \<in> set (snd (bsd_line l st)). a \<noteq> empty_dict"
  using flush_nonempty [of st]
  by (cases st; cases "flush st") (auto simp: bsd_line_def Let_def)

lemma fold_bsd_line_nonempty:
  "\<forall>a \<in> set (snd st). a \<noteq> empty_dict \<Longrightarrow>
   \<forall>a \<in> set (snd (fold bsd_line ls st)). a \<noteq> empty_dict"
proof (induction ls arbitrary: st)
  case Nil
  then show ?case by simp
next
  case (Cons l ls)
  have "fold bsd_line (l # ls) st = fold bsd_line ls (bsd_line l st)"
    by simp
  then show ?case
    using Cons.IH [OF bsd_line_nonempty [OF Cons.prems]] by (simp only:)
qed

text \<open>A line that opens a block: the accumulator starts empty, then gets name and MAC.\<close>

lemma bsd_line_header:
  "\<not> startswith l [CHR 0x09] \<Longrightarrow>
   bsd_line l st =
     (\<lparr>name = m_ifname l, mac = re_search m_ether l, ipv4 = None, ipv6 = None\<rparr>, snd (flush st))"
  using fst_flush [of st]
  by (cases "flush st") (auto simp: bsd_line_def Let_def empty_dict_def split: option.splits)

text \<open>The indented lines of a block keep the list and the name; the last MAC stays.\<close>

lemma bsd_line_body:
  assumes "startswith l [CHR 0x09]"
  shows "snd (bsd_line l (a, ifs)) = ifs"
    and "name (fst (bsd_line l (a, ifs))) = name a"
    and "mac (fst (bsd_line l (a, ifs))) =
           (case re_search m_ether l of Some g \<Rightarrow> Some g | None \<Rightarrow> mac a)"
  using assms
  by (auto simp: bsd_line_def Let_def append_ipv4_def append_ipv6_def split: option.splits)

lemma fold_bsd_line_body:
  assumes "\<forall>l \<in> set body. startswith l [CHR 0x09]"
  shows "snd (fold bsd_line body (a, ifs)) = ifs
    \<and> name (fst (fold bsd_line body (a, ifs))) = name a
    \<and> mac (fst (fold bsd_line body (a, ifs))) =
        (case List.map_filter (re_search m_ether) body of
           [] \<Rightarrow> mac a | g # gs \<Rightarrow> Some (last (g # gs)))"
  using assms
proof (induction body arbitrary: a)
  case Nil
  then show ?case by (simp add: map_filter_simps)
next
  case (Cons l body)
  then have tab: "startswith l [CHR 0x09]" and rest: "\<forall>l \<in> set body. startswith l [CHR 0x09]"
    by simp_all
  obtain a' where step: "bsd_line l (a, ifs) = (a', ifs)"
    using bsd_line_body(1) [OF tab, of a ifs] by (cases "bsd_line l (a, ifs)") simp
  have na: "name a' = name a"
    and ma: "mac a' = (case re_search m_ether l of Some g \<Rightarrow> Some g | None \<Rightarrow> mac a)"
    using bsd_line_body(2,3) [OF tab, of a ifs] step by simp_all
  have f: "fold bsd_line (l # body) (a, ifs) = fold bsd_line body (a', ifs)"
    by (simp add: step)
  define rest_macs where "rest_macs = List.map_filter (re_search m_ether) body"
  have all: "List.map_filter (re_search m_ether) (l # body) =
      (case re_search m_ether l of Some g \<Rightarrow> g # rest_macs | None \<Rightarrow> rest_macs)"
    unfolding rest_macs_def by (simp add: map_filter_simps split: option.splits)
  have ih: "snd (fold bsd_line body (a', ifs)) = ifs"
    "name (fst (fold bsd_line body (a', ifs))) = name a'"
    "mac (fst (fold bsd_line body (a', ifs))) =
        (case rest_macs of [] \<Rightarrow> mac a' | g # gs \<Rightarrow> Some (last (g # gs)))"
    unfolding rest_macs_def using Cons.IH [OF rest, of a'] by simp_all
  show ?case
    unfolding f all ih na ma
    by (cases "re_search m_ether l"; cases rest_macs) simp_all
qed

lemma snd_flush: "snd (flush st) = (if fst st \<noteq> empty_dict then snd st @ [fst st] else snd st)"
  by (cases st) (simp add: flush_def)

lemma bsd_line_extends: "\<exists>extra. snd (bsd_line l st) = snd st @ extra"
proof (cases "startswith l [CHR 0x09]")
  case True
  then show ?thesis
    using bsd_line_body(1) [of l "fst st" "snd st"] by simp
next
  case False
  then show ?thesis
    by (simp add: bsd_line_header snd_flush)
qed

lemma fold_bsd_line_extends: "\<exists>extra. snd (fold bsd_line ls st) = snd st @ extra"
proof (induction ls arbitrary: st)
  case Nil
  then show ?case by simp
next
  case (Cons l ls)
  obtain e1 where e1: "snd (bsd_line l st) = snd st @ e1"
    using bsd_line_extends by blast
  obtain e2 where e2: "snd (fold bsd_line ls (bsd_line l st)) = snd (bsd_line l st) @ e2"
    using Cons.IH by blast
  have "snd (fold bsd_line (l # ls) st) = snd st @ (e1 @ e2)"
    by (simp add: e1 e2)
  then show ?case
    by blast
qed

text \<open>What the BSD loop returns once the last line is read.\<close>

lemma bsd_result_extends:
  "\<exists>extra. (case fold bsd_line ls st of
        (adapter, interfaces) \<Rightarrow>
          if adapter \<noteq> empty_dict then interfaces @ [adapter] else interfaces) = snd st @ extra"
proof -
  obtain e where e: "snd (fold bsd_line ls st) = snd st @ e"
    using fold_bsd_line_extends by blast
  show ?thesis
  proof (cases "fst (fold bsd_line ls st) \<noteq> empty_dict")
    case True
    with e have "(case fold bsd_line ls st of
        (adapter, interfaces) \<Rightarrow>
          if adapter \<noteq> empty_dict then interfaces @ [adapter] else interfaces)
        = snd st @ (e @ [fst (fold bsd_line ls st)])"
      by (simp add: case_prod_beta)
    then show ?thesis by blast
  next
    case False
    with e have "(case fold bsd_line ls st of
        (adapter, interfaces) \<Rightarrow>
          if adapter \<noteq> empty_dict then interfaces @ [adapter] else interfaces)
        = snd st @ e"
      by (simp add: case_prod_beta)
    then show ?thesis by blast
  qed
qed

text \<open>
  A block with an \<^verbatim>\<open>ether\<close> match, wherever it stands in the output: its entry follows the
  entries of the earlier lines and has the name of the header and the last MAC.
\<close>

lemma bsd_block:
  assumes "\<not> startswith header [CHR 0x09]"
    and "\<forall>l \<in> set body. startswith l [CHR 0x09]"
    and "later = [] \<or> \<not> startswith (hd later) [CHR 0x09]"
    and "List.map_filter (re_search m_ether) (header # body) \<noteq> []"
  shows "\<exists>a after.
      (case fold bsd_line (earlier @ header # body @ later) (empty_dict, []) of
         (adapter, interfaces) \<Rightarrow>
           if adapter \<noteq> empty_dict then interfaces @ [adapter] else interfaces)
        = snd (flush (fold bsd_line earlier (empty_dict, []))) @ a # after
      \<and> name a = m_ifname header
      \<and> mac a = Some (last (List.map_filter (re_search m_ether) (header # body)))"
proof -
  let ?macs = "List.map_filter (re_search m_ether) (header # body)"
  define st where "st = fold bsd_line earlier (empty_dict, [])"
  define a0 where "a0 = \<lparr>name = m_ifname header, mac = re_search m_ether header,
      ipv4 = None, ipv6 = None\<rparr>"
  define ifs where "ifs = snd (flush st)"
  define fin where "fin = fold bsd_line body (a0, ifs)"
  have hd_step: "bsd_line header st = (a0, ifs)"
    unfolding a0_def ifs_def using assms(1) by (simp add: bsd_line_header)
  have body: "snd fin = ifs" "name (fst fin) = name a0"
    "mac (fst fin) = (case List.map_filter (re_search m_ether) body of
           [] \<Rightarrow> mac a0 | g # gs \<Rightarrow> Some (last (g # gs)))"
    unfolding fin_def using fold_bsd_line_body [of body a0 ifs] assms(2) by simp_all
  have macs: "?macs = (case re_search m_ether header of
      Some g \<Rightarrow> g # List.map_filter (re_search m_ether) body
    | None \<Rightarrow> List.map_filter (re_search m_ether) body)"
    by (simp add: map_filter_simps split: option.splits)
  have m: "mac (fst fin) = Some (last ?macs)"
    using assms(4) unfolding body(3) macs
    by (cases "re_search m_ether header"; cases "List.map_filter (re_search m_ether) body")
      (simp_all add: a0_def map_filter_simps)
  have n: "name (fst fin) = m_ifname header"
    using body(2) by (simp add: a0_def)
  from m have ne: "fst fin \<noteq> empty_dict"
    by (auto simp: empty_dict_def)
  have fin: "fin = (fst fin, ifs)"
    using body(1) by (cases fin) simp
  have upto: "fold bsd_line (earlier @ header # body @ later) (empty_dict, [])
      = fold bsd_line later fin"
    by (simp add: st_def [symmetric] hd_step fin_def)
  have "\<exists>after. (case fold bsd_line later fin of
         (adapter, interfaces) \<Rightarrow>
           if adapter \<noteq> empty_dict then interfaces @ [adapter] else interfaces)
        = ifs @ fst fin # after"
  proof (cases later)
    case Nil
    then show ?thesis
      using ne fin by (simp add: case_prod_beta body(1))
  next
    case (Cons l ls)
    with assms(3) have "\<not> startswith l [CHR 0x09]"
      by simp
    then have "snd (bsd_line l fin) = ifs @ [fst fin]"
      using ne body(1) by (simp add: bsd_line_header snd_flush)
    moreover obtain e where "(case fold bsd_line ls (bsd_line l fin) of
         (adapter, interfaces) \<Rightarrow>
           if adapter \<noteq> empty_dict then interfaces @ [adapter] else interfaces)
        = snd (bsd_line l fin) @ e"
      using bsd_result_extends by blast
    ultimately show ?thesis
      using Cons by simp
  qed
  then show ?thesis
    unfolding upto ifs_def st_def using m n by blast
qed

lemma linux_result_entry:
  assumes "a \<in> set (map snd (fold linux_line ls []))"
  shows "\<exists>k. map_of (fold linux_line ls []) k = Some a \<and> name a = Some k"
proof -
  have d: "distinct (map fst (fold linux_line ls []))"
    by (rule fold_linux_line_distinct) simp
  have n: "\<forall>k v. map_of (fold linux_line ls []) k = Some v \<longrightarrow> name v = Some k"
    by (rule fold_linux_line_named) simp
  from assms obtain k where "(k, a) \<in> set (fold linux_line ls [])"
    by auto
  with d have "map_of (fold linux_line ls []) k = Some a"
    by simp
  with n show ?thesis
    by blast
qed

text \<open>Every interface the Linux parser returns has a name.\<close>

lemma linux_entries_named:
  assumes "system h = ''linux''"
  shows "\<forall>a \<in> set (parse_ip_config_posix h). name a \<noteq> None"
proof
  fix a
  assume a: "a \<in> set (parse_ip_config_posix h)"
  have "parse_ip_config_posix h
      = map snd (fold linux_line (splitlines (run_command h ''ip -o addr show'')) [])"
    using assms by (cases "run_command h ''ip -o addr show'' = []")
      (simp_all add: parse_ip_config_posix_def)
  with a linux_result_entry show "name a \<noteq> None"
    by fastforce
qed

subsection \<open>The address lists\<close>

text \<open>
  A loop that appends to a list which is absent until the first element arrives
  (\<^verbatim>\<open>d.setdefault(key, []).append(x)\<close>): after the loop the list holds what was there
  before and then the elements of the lines, in their order.
\<close>

lemma fold_collect:
  assumes "\<And>l s. l \<in> set ls \<Longrightarrow>
      field (step l s) =
        (case pick l of
           Some x \<Rightarrow> Some ((case field s of None \<Rightarrow> [] | Some xs \<Rightarrow> xs) @ [x])
         | None \<Rightarrow> field s)"
  shows "field (fold step ls s) =
      (case List.map_filter pick ls of
         [] \<Rightarrow> field s
       | x # xs \<Rightarrow> Some ((case field s of None \<Rightarrow> [] | Some ys \<Rightarrow> ys) @ x # xs))"
  using assms
proof (induction ls arbitrary: s)
  case Nil
  then show ?case by (simp add: map_filter_simps)
next
  case (Cons l ls)
  have step: "field (step l s) =
        (case pick l of
           Some x \<Rightarrow> Some ((case field s of None \<Rightarrow> [] | Some xs \<Rightarrow> xs) @ [x])
         | None \<Rightarrow> field s)"
    by (rule Cons.prems) simp
  have ih: "field (fold step ls (step l s)) =
      (case List.map_filter pick ls of
         [] \<Rightarrow> field (step l s)
       | x # xs \<Rightarrow> Some ((case field (step l s) of None \<Rightarrow> [] | Some ys \<Rightarrow> ys) @ x # xs))"
    by (rule Cons.IH) (simp add: Cons.prems)
  show ?case
  proof (cases "pick l")
    case None
    with step ih show ?thesis
      by (cases "List.map_filter pick ls") (simp_all add: map_filter_simps)
  next
    case (Some x)
    with step ih show ?thesis
      by (cases "List.map_filter pick ls") (simp_all add: map_filter_simps)
  qed
qed

text \<open>The addresses of an interface after one record and after one line.\<close>

lemma linux_record_own_addresses:
  assumes "map_of (linux_record line k family ip m) k = Some v'"
  shows "ipv4 v' =
      (case (if family = ''inet'' then Some ip else None) of
         Some x \<Rightarrow> Some ((case (case map_of m k of None \<Rightarrow> None | Some v \<Rightarrow> ipv4 v) of
                            None \<Rightarrow> [] | Some xs \<Rightarrow> xs) @ [x])
       | None \<Rightarrow> (case map_of m k of None \<Rightarrow> None | Some v \<Rightarrow> ipv4 v))"
    and "ipv6 v' =
      (case (if family = ''inet6'' then Some ip else None) of
         Some x \<Rightarrow> Some ((case (case map_of m k of None \<Rightarrow> None | Some v \<Rightarrow> ipv6 v) of
                            None \<Rightarrow> [] | Some xs \<Rightarrow> xs) @ [x])
       | None \<Rightarrow> (case map_of m k of None \<Rightarrow> None | Some v \<Rightarrow> ipv6 v))"
proof -
  let ?d = "empty_dict\<lparr>name := Some k\<rparr>"
  obtain m' v where sd: "setdefault k ?d m = (m', v)"
    by (cases "setdefault k ?d m")
  have v: "v = (case map_of m k of None \<Rightarrow> ?d | Some v \<Rightarrow> v)"
    using setdefault_entry [of k ?d m] sd by simp
  have m': "map_of m' k = Some v"
    using setdefault_lookup [of k ?d m] sd by (metis fst_conv snd_conv fun_upd_same)
  have v4: "ipv4 v = (case map_of m k of None \<Rightarrow> None | Some v \<Rightarrow> ipv4 v)"
    and v6: "ipv6 v = (case map_of m k of None \<Rightarrow> None | Some v \<Rightarrow> ipv6 v)"
    by (simp_all add: v empty_dict_def split: option.splits)
  show "ipv4 v' =
      (case (if family = ''inet'' then Some ip else None) of
         Some x \<Rightarrow> Some ((case (case map_of m k of None \<Rightarrow> None | Some v \<Rightarrow> ipv4 v) of
                            None \<Rightarrow> [] | Some xs \<Rightarrow> xs) @ [x])
       | None \<Rightarrow> (case map_of m k of None \<Rightarrow> None | Some v \<Rightarrow> ipv4 v))"
    using assms m' unfolding v4 [symmetric]
    by (auto simp: linux_record_def sd update_conv' append_ipv4_def append_ipv6_def
        split: option.splits if_splits)
  show "ipv6 v' =
      (case (if family = ''inet6'' then Some ip else None) of
         Some x \<Rightarrow> Some ((case (case map_of m k of None \<Rightarrow> None | Some v \<Rightarrow> ipv6 v) of
                            None \<Rightarrow> [] | Some xs \<Rightarrow> xs) @ [x])
       | None \<Rightarrow> (case map_of m k of None \<Rightarrow> None | Some v \<Rightarrow> ipv6 v))"
    using assms m' unfolding v6 [symmetric]
    by (auto simp: linux_record_def sd update_conv' append_ipv4_def append_ipv6_def
        split: option.splits if_splits)
qed


lemma linux_line_addresses:
  "(case map_of (linux_line l m) k of None \<Rightarrow> None | Some v \<Rightarrow> ipv4 v) =
     (case (if 4 \<le> length (split_ws l) \<and> split_ws l ! 1 = k \<and> split_ws l ! 2 = ''inet''
            then Some (hd (split_char CHR ''/'' (split_ws l ! 3))) else None) of
        Some x \<Rightarrow> Some ((case (case map_of m k of None \<Rightarrow> None | Some v \<Rightarrow> ipv4 v) of
                           None \<Rightarrow> [] | Some xs \<Rightarrow> xs) @ [x])
      | None \<Rightarrow> (case map_of m k of None \<Rightarrow> None | Some v \<Rightarrow> ipv4 v))"
  "(case map_of (linux_line l m) k of None \<Rightarrow> None | Some v \<Rightarrow> ipv6 v) =
     (case (if 4 \<le> length (split_ws l) \<and> split_ws l ! 1 = k \<and> split_ws l ! 2 = ''inet6''
            then Some (hd (split_char CHR ''/'' (split_ws l ! 3))) else None) of
        Some x \<Rightarrow> Some ((case (case map_of m k of None \<Rightarrow> None | Some v \<Rightarrow> ipv6 v) of
                           None \<Rightarrow> [] | Some xs \<Rightarrow> xs) @ [x])
      | None \<Rightarrow> (case map_of m k of None \<Rightarrow> None | Some v \<Rightarrow> ipv6 v))"
proof -
  let ?k = "split_ws l ! 1"
  let ?ip = "hd (split_char CHR ''/'' (split_ws l ! 3))"
  have short: "linux_line l m = m" if "\<not> 4 \<le> length (split_ws l)"
    using that by (simp add: linux_line_def)
  have ll: "linux_line l m = linux_record l ?k (split_ws l ! 2) ?ip m"
    if "4 \<le> length (split_ws l)"
    using that by (simp add: linux_line_def Let_def del: One_nat_def)
  have other: "map_of (linux_line l m) k = map_of m k" if "4 \<le> length (split_ws l)" "k \<noteq> ?k"
    using that by (simp add: ll linux_record_other del: One_nat_def)
  have own: "\<exists>v'. map_of (linux_line l m) ?k = Some v'" if "4 \<le> length (split_ws l)"
    using that linux_record_defined [of l ?k "split_ws l ! 2" ?ip m]
    by (simp add: ll del: One_nat_def)
  show "(case map_of (linux_line l m) k of None \<Rightarrow> None | Some v \<Rightarrow> ipv4 v) =
     (case (if 4 \<le> length (split_ws l) \<and> split_ws l ! 1 = k \<and> split_ws l ! 2 = ''inet''
            then Some ?ip else None) of
        Some x \<Rightarrow> Some ((case (case map_of m k of None \<Rightarrow> None | Some v \<Rightarrow> ipv4 v) of
                           None \<Rightarrow> [] | Some xs \<Rightarrow> xs) @ [x])
      | None \<Rightarrow> (case map_of m k of None \<Rightarrow> None | Some v \<Rightarrow> ipv4 v))"
  proof (cases "4 \<le> length (split_ws l)")
    case False
    then show ?thesis
      by (simp add: short)
  next
    case True
    show ?thesis
    proof (cases "k = ?k")
      case False
      with True show ?thesis
        by (auto simp: other simp del: One_nat_def)
    next
      case k: True
      from own [OF True] obtain v' where v': "map_of (linux_line l m) ?k = Some v'"
        by blast
      then have "map_of (linux_record l ?k (split_ws l ! 2) ?ip m) ?k = Some v'"
        by (simp only: ll [OF True])
      then have "ipv4 v' =
          (case (if split_ws l ! 2 = ''inet'' then Some ?ip else None) of
             Some x \<Rightarrow> Some ((case (case map_of m ?k of None \<Rightarrow> None | Some v \<Rightarrow> ipv4 v) of
                                None \<Rightarrow> [] | Some xs \<Rightarrow> xs) @ [x])
           | None \<Rightarrow> (case map_of m ?k of None \<Rightarrow> None | Some v \<Rightarrow> ipv4 v))"
        by (rule linux_record_own_addresses(1))
      with True v' show ?thesis
        unfolding k by (simp del: One_nat_def)
    qed
  qed
  show "(case map_of (linux_line l m) k of None \<Rightarrow> None | Some v \<Rightarrow> ipv6 v) =
     (case (if 4 \<le> length (split_ws l) \<and> split_ws l ! 1 = k \<and> split_ws l ! 2 = ''inet6''
            then Some ?ip else None) of
        Some x \<Rightarrow> Some ((case (case map_of m k of None \<Rightarrow> None | Some v \<Rightarrow> ipv6 v) of
                           None \<Rightarrow> [] | Some xs \<Rightarrow> xs) @ [x])
      | None \<Rightarrow> (case map_of m k of None \<Rightarrow> None | Some v \<Rightarrow> ipv6 v))"
  proof (cases "4 \<le> length (split_ws l)")
    case False
    then show ?thesis
      by (simp add: short)
  next
    case True
    show ?thesis
    proof (cases "k = ?k")
      case False
      with True show ?thesis
        by (auto simp: other simp del: One_nat_def)
    next
      case k: True
      from own [OF True] obtain v' where v': "map_of (linux_line l m) ?k = Some v'"
        by blast
      then have "map_of (linux_record l ?k (split_ws l ! 2) ?ip m) ?k = Some v'"
        by (simp only: ll [OF True])
      then have "ipv6 v' =
          (case (if split_ws l ! 2 = ''inet6'' then Some ?ip else None) of
             Some x \<Rightarrow> Some ((case (case map_of m ?k of None \<Rightarrow> None | Some v \<Rightarrow> ipv6 v) of
                                None \<Rightarrow> [] | Some xs \<Rightarrow> xs) @ [x])
           | None \<Rightarrow> (case map_of m ?k of None \<Rightarrow> None | Some v \<Rightarrow> ipv6 v))"
        by (rule linux_record_own_addresses(2))
      with True v' show ?thesis
        unfolding k by (simp del: One_nat_def)
    qed
  qed
qed

text \<open>The addresses of an interface after the loop: those of its lines, in their order.\<close>

lemma fold_linux_line_addresses:
  "(case map_of (fold linux_line ls []) k of None \<Rightarrow> None | Some v \<Rightarrow> ipv4 v) =
     (case map (\<lambda>l. hd (split_char CHR ''/'' (split_ws l ! 3)))
             (filter (\<lambda>l. 4 \<le> length (split_ws l) \<and> split_ws l ! 1 = k
                          \<and> split_ws l ! 2 = ''inet'') ls) of
        [] \<Rightarrow> None
      | x # xs \<Rightarrow> Some (x # xs))"
  "(case map_of (fold linux_line ls []) k of None \<Rightarrow> None | Some v \<Rightarrow> ipv6 v) =
     (case map (\<lambda>l. hd (split_char CHR ''/'' (split_ws l ! 3)))
             (filter (\<lambda>l. 4 \<le> length (split_ws l) \<and> split_ws l ! 1 = k
                          \<and> split_ws l ! 2 = ''inet6'') ls) of
        [] \<Rightarrow> None
      | x # xs \<Rightarrow> Some (x # xs))"
proof -
  have "(case map_of (fold linux_line ls []) k of None \<Rightarrow> None | Some v \<Rightarrow> ipv4 v) =
      (case List.map_filter
              (\<lambda>l. if 4 \<le> length (split_ws l) \<and> split_ws l ! 1 = k \<and> split_ws l ! 2 = ''inet''
                   then Some (hd (split_char CHR ''/'' (split_ws l ! 3))) else None) ls of
         [] \<Rightarrow> (case map_of ([] :: (string \<times> interface) list) k of None \<Rightarrow> None | Some v \<Rightarrow> ipv4 v)
       | x # xs \<Rightarrow> Some ((case (case map_of ([] :: (string \<times> interface) list) k of None \<Rightarrow> None | Some v \<Rightarrow> ipv4 v) of
                            None \<Rightarrow> [] | Some ys \<Rightarrow> ys) @ x # xs))"
    by (rule fold_collect [where field = "\<lambda>m. case map_of m k of None \<Rightarrow> None | Some v \<Rightarrow> ipv4 v"
          and step = linux_line and s = "[]" and ls = ls
          and pick = "\<lambda>l. if 4 \<le> length (split_ws l) \<and> split_ws l ! 1 = k
                            \<and> split_ws l ! 2 = ''inet''
                          then Some (hd (split_char CHR ''/'' (split_ws l ! 3))) else None"])
      (rule linux_line_addresses(1))
  then show "(case map_of (fold linux_line ls []) k of None \<Rightarrow> None | Some v \<Rightarrow> ipv4 v) =
     (case map (\<lambda>l. hd (split_char CHR ''/'' (split_ws l ! 3)))
             (filter (\<lambda>l. 4 \<le> length (split_ws l) \<and> split_ws l ! 1 = k
                          \<and> split_ws l ! 2 = ''inet'') ls) of
        [] \<Rightarrow> None
      | x # xs \<Rightarrow> Some (x # xs))"
    unfolding map_filter_map_filter by (simp split: list.splits del: One_nat_def)
  have "(case map_of (fold linux_line ls []) k of None \<Rightarrow> None | Some v \<Rightarrow> ipv6 v) =
      (case List.map_filter
              (\<lambda>l. if 4 \<le> length (split_ws l) \<and> split_ws l ! 1 = k \<and> split_ws l ! 2 = ''inet6''
                   then Some (hd (split_char CHR ''/'' (split_ws l ! 3))) else None) ls of
         [] \<Rightarrow> (case map_of ([] :: (string \<times> interface) list) k of None \<Rightarrow> None | Some v \<Rightarrow> ipv6 v)
       | x # xs \<Rightarrow> Some ((case (case map_of ([] :: (string \<times> interface) list) k of None \<Rightarrow> None | Some v \<Rightarrow> ipv6 v) of
                            None \<Rightarrow> [] | Some ys \<Rightarrow> ys) @ x # xs))"
    by (rule fold_collect [where field = "\<lambda>m. case map_of m k of None \<Rightarrow> None | Some v \<Rightarrow> ipv6 v"
          and step = linux_line and s = "[]" and ls = ls
          and pick = "\<lambda>l. if 4 \<le> length (split_ws l) \<and> split_ws l ! 1 = k
                            \<and> split_ws l ! 2 = ''inet6''
                          then Some (hd (split_char CHR ''/'' (split_ws l ! 3))) else None"])
      (rule linux_line_addresses(2))
  then show "(case map_of (fold linux_line ls []) k of None \<Rightarrow> None | Some v \<Rightarrow> ipv6 v) =
     (case map (\<lambda>l. hd (split_char CHR ''/'' (split_ws l ! 3)))
             (filter (\<lambda>l. 4 \<le> length (split_ws l) \<and> split_ws l ! 1 = k
                          \<and> split_ws l ! 2 = ''inet6'') ls) of
        [] \<Rightarrow> None
      | x # xs \<Rightarrow> Some (x # xs))"
    unfolding map_filter_map_filter by (simp split: list.splits del: One_nat_def)
qed

text \<open>The addresses of a BSD block: the matches of its indented lines, in their order.\<close>

lemma bsd_line_body_addresses:
  assumes "startswith l [CHR 0x09]"
  shows "ipv4 (fst (bsd_line l st)) =
           (case re_search m_inet l of
              Some x \<Rightarrow> Some ((case ipv4 (fst st) of None \<Rightarrow> [] | Some xs \<Rightarrow> xs) @ [x])
            | None \<Rightarrow> ipv4 (fst st))"
    and "ipv6 (fst (bsd_line l st)) =
           (case re_search m_inet6 l of
              Some x \<Rightarrow> Some ((case ipv6 (fst st) of None \<Rightarrow> [] | Some xs \<Rightarrow> xs) @ [x])
            | None \<Rightarrow> ipv6 (fst st))"
  using assms
  by (cases st; auto simp: bsd_line_def Let_def append_ipv4_def append_ipv6_def
      split: option.splits)+

lemma fold_bsd_line_body_addresses:
  assumes "\<forall>l \<in> set body. startswith l [CHR 0x09]"
  shows "ipv4 (fst (fold bsd_line body st)) =
      (case List.map_filter (re_search m_inet) body of
         [] \<Rightarrow> ipv4 (fst st)
       | x # xs \<Rightarrow> Some ((case ipv4 (fst st) of None \<Rightarrow> [] | Some ys \<Rightarrow> ys) @ x # xs))"
    and "ipv6 (fst (fold bsd_line body st)) =
      (case List.map_filter (re_search m_inet6) body of
         [] \<Rightarrow> ipv6 (fst st)
       | x # xs \<Rightarrow> Some ((case ipv6 (fst st) of None \<Rightarrow> [] | Some ys \<Rightarrow> ys) @ x # xs))"
proof -
  show "ipv4 (fst (fold bsd_line body st)) =
      (case List.map_filter (re_search m_inet) body of
         [] \<Rightarrow> ipv4 (fst st)
       | x # xs \<Rightarrow> Some ((case ipv4 (fst st) of None \<Rightarrow> [] | Some ys \<Rightarrow> ys) @ x # xs))"
    by (rule fold_collect [where field = "\<lambda>st. ipv4 (fst st)" and step = bsd_line
          and s = st and ls = body and pick = "re_search m_inet"])
      (rule bsd_line_body_addresses(1), simp add: assms)
  show "ipv6 (fst (fold bsd_line body st)) =
      (case List.map_filter (re_search m_inet6) body of
         [] \<Rightarrow> ipv6 (fst st)
       | x # xs \<Rightarrow> Some ((case ipv6 (fst st) of None \<Rightarrow> [] | Some ys \<Rightarrow> ys) @ x # xs))"
    by (rule fold_collect [where field = "\<lambda>st. ipv6 (fst st)" and step = bsd_line
          and s = st and ls = body and pick = "re_search m_inet6"])
      (rule bsd_line_body_addresses(2), simp add: assms)
qed

text \<open>
  The entries already in the list are never read: the loop run with a longer list gives the
  same accumulator, and the same new entries after the longer list.
\<close>

lemma bsd_line_prefix:
  "bsd_line l (a, pre @ ifs) = (fst (bsd_line l (a, ifs)), pre @ snd (bsd_line l (a, ifs)))"
  by (simp add: bsd_line_def flush_def Let_def split: option.splits)

lemma fold_bsd_line_prefix:
  "fold bsd_line ls (a, pre @ ifs) =
     (fst (fold bsd_line ls (a, ifs)), pre @ snd (fold bsd_line ls (a, ifs)))"
proof (induction ls arbitrary: a ifs)
  case Nil
  then show ?case by simp
next
  case (Cons l ls)
  obtain a' ifs' where step: "bsd_line l (a, ifs) = (a', ifs')"
    by (cases "bsd_line l (a, ifs)")
  have "bsd_line l (a, pre @ ifs) = (a', pre @ ifs')"
    by (simp add: bsd_line_prefix step)
  then show ?case
    using Cons.IH [of a' ifs'] by (simp add: step)
qed

text \<open>
  Lines that begin with a header: the entries they give follow the entries of the state the
  loop is in, and are those the same lines give from the start.
\<close>

lemma bsd_restart:
  assumes "ls = [] \<or> \<not> startswith (hd ls) [CHR 0x09]"
  shows "snd (flush (fold bsd_line ls st))
      = snd (flush st) @ snd (flush (fold bsd_line ls (empty_dict, [])))"
proof (cases ls)
  case Nil
  then show ?thesis
    by (simp add: snd_flush)
next
  case (Cons l rest)
  with assms have hd: "\<not> startswith l [CHR 0x09]"
    by simp
  define a0 where "a0 = \<lparr>name = m_ifname l, mac = re_search m_ether l, ipv4 = None, ipv6 = None\<rparr>"
  have s1: "bsd_line l st = (a0, snd (flush st) @ [])"
    unfolding a0_def using hd by (simp add: bsd_line_header)
  have s2: "bsd_line l (empty_dict, []) = (a0, [])"
    unfolding a0_def using hd by (simp add: bsd_line_header snd_flush)
  have "fold bsd_line ls st = fold bsd_line rest (a0, snd (flush st) @ [])"
    unfolding Cons using s1 by simp
  also have "\<dots> = (fst (fold bsd_line rest (a0, [])),
      snd (flush st) @ snd (fold bsd_line rest (a0, [])))"
    by (rule fold_bsd_line_prefix)
  finally have l: "fold bsd_line ls st = (fst (fold bsd_line rest (a0, [])),
      snd (flush st) @ snd (fold bsd_line rest (a0, [])))" .
  have r: "fold bsd_line ls (empty_dict, []) = fold bsd_line rest (a0, [])"
    unfolding Cons using s2 by simp
  show ?thesis
    unfolding l r by (simp add: snd_flush)
qed


text \<open>
  A block, wherever it stands in the output: the loop returns the entries of the earlier
  lines, then the entry of the block unless it is the empty dictionary, then the entries of
  the later lines. The entry has the name of the header, the last \<^verbatim>\<open>ether\<close> match of the
  lines of the block, and the \<^verbatim>\<open>inet\<close> and \<^verbatim>\<open>inet6\<close> matches of the indented lines.
\<close>

lemma bsd_block_entry:
  assumes "\<not> startswith header [CHR 0x09]"
    and "\<forall>l \<in> set body. startswith l [CHR 0x09]"
    and "later = [] \<or> \<not> startswith (hd later) [CHR 0x09]"
  shows "snd (flush (fold bsd_line (earlier @ header # body @ later) (empty_dict, [])))
      = snd (flush (fold bsd_line earlier (empty_dict, [])))
        @ filter (\<lambda>a. a \<noteq> empty_dict)
            [\<lparr>name = m_ifname header,
              mac = (case List.map_filter (re_search m_ether) (header # body) of
                       [] \<Rightarrow> None | g # gs \<Rightarrow> Some (last (g # gs))),
              ipv4 = (case List.map_filter (re_search m_inet) body of
                        [] \<Rightarrow> None | x # xs \<Rightarrow> Some (x # xs)),
              ipv6 = (case List.map_filter (re_search m_inet6) body of
                        [] \<Rightarrow> None | x # xs \<Rightarrow> Some (x # xs))\<rparr>]
        @ snd (flush (fold bsd_line later (empty_dict, [])))"
proof -
  define e where "e = \<lparr>name = m_ifname header,
      mac = (case List.map_filter (re_search m_ether) (header # body) of
               [] \<Rightarrow> None | g # gs \<Rightarrow> Some (last (g # gs))),
      ipv4 = (case List.map_filter (re_search m_inet) body of
                [] \<Rightarrow> None | x # xs \<Rightarrow> Some (x # xs)),
      ipv6 = (case List.map_filter (re_search m_inet6) body of
                [] \<Rightarrow> None | x # xs \<Rightarrow> Some (x # xs))\<rparr>"
  define st where "st = fold bsd_line earlier (empty_dict, [])"
  define a0 where "a0 = \<lparr>name = m_ifname header, mac = re_search m_ether header,
      ipv4 = None, ipv6 = None\<rparr>"
  define ifs where "ifs = snd (flush st)"
  define fin where "fin = fold bsd_line body (a0, ifs)"
  have hd_step: "bsd_line header st = (a0, ifs)"
    unfolding a0_def ifs_def using assms(1) by (simp add: bsd_line_header)
  have body: "snd fin = ifs" "name (fst fin) = name a0"
    "mac (fst fin) = (case List.map_filter (re_search m_ether) body of
           [] \<Rightarrow> mac a0 | g # gs \<Rightarrow> Some (last (g # gs)))"
    unfolding fin_def using fold_bsd_line_body [of body a0 ifs] assms(2) by simp_all
  have a4: "ipv4 (fst fin) = (case List.map_filter (re_search m_inet) body of
           [] \<Rightarrow> None | x # xs \<Rightarrow> Some (x # xs))"
    unfolding fin_def fold_bsd_line_body_addresses(1) [OF assms(2)]
    by (simp add: a0_def split: list.splits)
  have a6: "ipv6 (fst fin) = (case List.map_filter (re_search m_inet6) body of
           [] \<Rightarrow> None | x # xs \<Rightarrow> Some (x # xs))"
    unfolding fin_def fold_bsd_line_body_addresses(2) [OF assms(2)]
    by (simp add: a0_def split: list.splits)
  have m: "mac (fst fin) = (case List.map_filter (re_search m_ether) (header # body) of
           [] \<Rightarrow> None | g # gs \<Rightarrow> Some (last (g # gs)))"
    unfolding body(3)
    by (cases "re_search m_ether header"; cases "List.map_filter (re_search m_ether) body")
      (simp_all add: a0_def map_filter_simps)
  have n: "name (fst fin) = m_ifname header"
    using body(2) by (simp add: a0_def)
  have "fst fin = e"
    unfolding e_def using n m a4 a6 by (cases "fst fin") simp
  then have fin: "fin = (e, ifs)"
    using body(1) by (cases fin) simp
  have upto: "fold bsd_line (earlier @ header # body @ later) (empty_dict, [])
      = fold bsd_line later (e, ifs)"
    by (simp add: st_def [symmetric] hd_step fin_def [symmetric] fin)
  have "snd (flush (fold bsd_line later (e, ifs)))
      = snd (flush (e, ifs)) @ snd (flush (fold bsd_line later (empty_dict, [])))"
    using assms(3) by (rule bsd_restart)
  also have "snd (flush (e, ifs)) = ifs @ filter (\<lambda>a. a \<noteq> empty_dict) [e]"
    by (simp add: snd_flush)
  finally show ?thesis
    unfolding upto ifs_def st_def e_def by simp
qed

subsection \<open>Which entries are returned\<close>

text \<open>
  Claim C3, amended. The claim says that a POSIX interface with no MAC and no address never
  appears; the parsers have no such rule. What holds: on Linux the names of the returned
  interfaces are, each once, exactly the second fields of the lines with at least four
  whitespace-separated fields, whatever the family tag of the line, and the entry of a name
  has, beside the name, the MAC of the last \<^verbatim>\<open>link\<close> line of the name in which the pattern
  finds one, the addresses of its \<^verbatim>\<open>inet\<close> lines and those of its \<^verbatim>\<open>inet6\<close> lines, each
  key present only when there is such a line: a name that occurs only in lines of another
  family is returned with the name alone, and only a name that occurs in shorter lines alone
  never appears. On BSD and macOS no returned entry is the empty dictionary, and every block
  (a header line and the lines that follow it, each starting with a tab) gives, between the
  entries of the earlier lines and those of the later lines, one entry with the name the
  header has, the last \<^verbatim>\<open>ether\<close> match of the block and the \<^verbatim>\<open>inet\<close> and \<^verbatim>\<open>inet6\<close>
  matches of the indented lines, each key present only when there is a match; the block
  gives no entry only when none of the four keys is present. So a block with a name is
  returned also when it has neither MAC nor address.
\<close>

theorem posix_entries_included:
  "(system h = ''linux'' \<longrightarrow>
      distinct (map name (parse_ip_config_posix h))
      \<and> set (map name (parse_ip_config_posix h)) =
          {Some (split_ws l ! 1) | l.
             l \<in> set (splitlines (run_command h ''ip -o addr show'')) \<and> 4 \<le> length (split_ws l)}
      \<and> (\<forall>a \<in> set (parse_ip_config_posix h). \<forall>n. name a = Some n \<longrightarrow>
           a = \<lparr>name = Some n,
                mac = (case List.map_filter (re_search m_link_mac)
                         (filter (\<lambda>l. 4 \<le> length (split_ws l) \<and> split_ws l ! 1 = n
                                      \<and> split_ws l ! 2 = ''link'')
                            (splitlines (run_command h ''ip -o addr show''))) of
                         [] \<Rightarrow> None
                       | g # gs \<Rightarrow> Some (last (g # gs))),
                ipv4 = (case map (\<lambda>l. hd (split_char CHR ''/'' (split_ws l ! 3)))
                          (filter (\<lambda>l. 4 \<le> length (split_ws l) \<and> split_ws l ! 1 = n
                                       \<and> split_ws l ! 2 = ''inet'')
                             (splitlines (run_command h ''ip -o addr show''))) of
                          [] \<Rightarrow> None
                        | x # xs \<Rightarrow> Some (x # xs)),
                ipv6 = (case map (\<lambda>l. hd (split_char CHR ''/'' (split_ws l ! 3)))
                          (filter (\<lambda>l. 4 \<le> length (split_ws l) \<and> split_ws l ! 1 = n
                                       \<and> split_ws l ! 2 = ''inet6'')
                             (splitlines (run_command h ''ip -o addr show''))) of
                          [] \<Rightarrow> None
                        | x # xs \<Rightarrow> Some (x # xs))\<rparr>))
   \<and> (system h \<noteq> ''linux'' \<longrightarrow>
      (\<forall>a \<in> set (parse_ip_config_posix h). a \<noteq> empty_dict)
      \<and> (\<forall>earlier header body later.
           splitlines (run_command h ''ifconfig -a'') = earlier @ header # body @ later
           \<and> \<not> startswith header [CHR 0x09]
           \<and> (\<forall>l \<in> set body. startswith l [CHR 0x09])
           \<and> (later = [] \<or> \<not> startswith (hd later) [CHR 0x09])
         \<longrightarrow> parse_ip_config_posix h =
               snd (flush (fold bsd_line earlier (empty_dict, [])))
               @ filter (\<lambda>a. a \<noteq> empty_dict)
                   [\<lparr>name = m_ifname header,
                     mac = (case List.map_filter (re_search m_ether) (header # body) of
                              [] \<Rightarrow> None | g # gs \<Rightarrow> Some (last (g # gs))),
                     ipv4 = (case List.map_filter (re_search m_inet) body of
                               [] \<Rightarrow> None | x # xs \<Rightarrow> Some (x # xs)),
                     ipv6 = (case List.map_filter (re_search m_inet6) body of
                               [] \<Rightarrow> None | x # xs \<Rightarrow> Some (x # xs))\<rparr>]
               @ snd (flush (fold bsd_line later (empty_dict, [])))))"
proof (intro conjI impI allI ballI)
  assume sys: "system h = ''linux''"
  let ?ls = "splitlines (run_command h ''ip -o addr show'')"
  have res: "parse_ip_config_posix h = map snd (fold linux_line ?ls [])"
    using sys by (cases "run_command h ''ip -o addr show'' = []")
      (simp_all add: parse_ip_config_posix_def)
  have d: "distinct (map fst (fold linux_line ?ls []))"
    by (rule fold_linux_line_distinct) simp
  have n: "\<forall>k v. map_of (fold linux_line ?ls []) k = Some v \<longrightarrow> name v = Some k"
    by (rule fold_linux_line_named) simp
  have names: "map name (parse_ip_config_posix h) = map Some (map fst (fold linux_line ?ls []))"
    unfolding res using d n by (rule names_of_dictionary)
  show "distinct (map name (parse_ip_config_posix h))"
    unfolding names using d by (auto simp: distinct_map inj_on_def)
  have "set (map name (parse_ip_config_posix h)) = Some ` set (map fst (fold linux_line ?ls []))"
    unfolding names by (simp only: set_map)
  also have "\<dots> = Some ` {split_ws l ! 1 | l. l \<in> set ?ls \<and> 4 \<le> length (split_ws l)}"
    unfolding fold_linux_line_keys by simp
  also have "\<dots> = {Some (split_ws l ! 1) | l. l \<in> set ?ls \<and> 4 \<le> length (split_ws l)}"
    by blast
  finally show "set (map name (parse_ip_config_posix h)) =
      {Some (split_ws l ! 1) | l. l \<in> set ?ls \<and> 4 \<le> length (split_ws l)}" .
next
  fix a n
  assume sys: "system h = ''linux''"
    and a: "a \<in> set (parse_ip_config_posix h)" and n: "name a = Some n"
  let ?ls = "splitlines (run_command h ''ip -o addr show'')"
  have res: "parse_ip_config_posix h = map snd (fold linux_line ?ls [])"
    using sys by (cases "run_command h ''ip -o addr show'' = []")
      (simp_all add: parse_ip_config_posix_def)
  from a obtain k where k: "map_of (fold linux_line ?ls []) k = Some a" "name a = Some k"
    unfolding res using linux_result_entry by blast
  with n have kn: "k = n"
    by simp
  have m: "mac a =
           (case List.map_filter (re_search m_link_mac)
                   (filter (\<lambda>l. 4 \<le> length (split_ws l) \<and> split_ws l ! 1 = n
                                \<and> split_ws l ! 2 = ''link'') ?ls) of
              [] \<Rightarrow> None
            | g # gs \<Rightarrow> Some (last (g # gs)))"
    using fold_linux_line_mac [of ?ls "[]" n] k(1)
    unfolding kn by (simp del: One_nat_def split: list.splits)
  have a4: "ipv4 a =
           (case map (\<lambda>l. hd (split_char CHR ''/'' (split_ws l ! 3)))
                   (filter (\<lambda>l. 4 \<le> length (split_ws l) \<and> split_ws l ! 1 = n
                                \<and> split_ws l ! 2 = ''inet'') ?ls) of
              [] \<Rightarrow> None
            | x # xs \<Rightarrow> Some (x # xs))"
    using fold_linux_line_addresses(1) [of ?ls n] k(1)
    unfolding kn by (simp del: One_nat_def)
  have a6: "ipv6 a =
           (case map (\<lambda>l. hd (split_char CHR ''/'' (split_ws l ! 3)))
                   (filter (\<lambda>l. 4 \<le> length (split_ws l) \<and> split_ws l ! 1 = n
                                \<and> split_ws l ! 2 = ''inet6'') ?ls) of
              [] \<Rightarrow> None
            | x # xs \<Rightarrow> Some (x # xs))"
    using fold_linux_line_addresses(2) [of ?ls n] k(1)
    unfolding kn by (simp del: One_nat_def)
  show "a = \<lparr>name = Some n,
                mac = (case List.map_filter (re_search m_link_mac)
                         (filter (\<lambda>l. 4 \<le> length (split_ws l) \<and> split_ws l ! 1 = n
                                      \<and> split_ws l ! 2 = ''link'') ?ls) of
                         [] \<Rightarrow> None
                       | g # gs \<Rightarrow> Some (last (g # gs))),
                ipv4 = (case map (\<lambda>l. hd (split_char CHR ''/'' (split_ws l ! 3)))
                          (filter (\<lambda>l. 4 \<le> length (split_ws l) \<and> split_ws l ! 1 = n
                                       \<and> split_ws l ! 2 = ''inet'') ?ls) of
                          [] \<Rightarrow> None
                        | x # xs \<Rightarrow> Some (x # xs)),
                ipv6 = (case map (\<lambda>l. hd (split_char CHR ''/'' (split_ws l ! 3)))
                          (filter (\<lambda>l. 4 \<le> length (split_ws l) \<and> split_ws l ! 1 = n
                                       \<and> split_ws l ! 2 = ''inet6'') ?ls) of
                          [] \<Rightarrow> None
                        | x # xs \<Rightarrow> Some (x # xs))\<rparr>"
    unfolding m [symmetric] a4 [symmetric] a6 [symmetric] n [symmetric] by simp
next
  fix a
  assume sys: "system h \<noteq> ''linux''" and a: "a \<in> set (parse_ip_config_posix h)"
  let ?st = "fold bsd_line (splitlines (run_command h ''ifconfig -a'')) (empty_dict, [])"
  have inv: "\<forall>a \<in> set (snd ?st). a \<noteq> empty_dict"
    by (rule fold_bsd_line_nonempty) simp
  have "\<forall>a \<in> set (parse_ip_config_posix h). a \<noteq> empty_dict"
    using sys inv by (cases ?st) (auto simp: parse_ip_config_posix_def Let_def)
  with a show "a \<noteq> empty_dict"
    by blast
next
  fix earlier header body later
  assume sys: "system h \<noteq> ''linux''"
    and blk: "splitlines (run_command h ''ifconfig -a'') = earlier @ header # body @ later
         \<and> \<not> startswith header [CHR 0x09]
         \<and> (\<forall>l \<in> set body. startswith l [CHR 0x09])
         \<and> (later = [] \<or> \<not> startswith (hd later) [CHR 0x09])"
  then have out: "run_command h ''ifconfig -a'' \<noteq> []"
    by auto
  have res: "parse_ip_config_posix h =
      snd (flush (fold bsd_line (earlier @ header # body @ later) (empty_dict, [])))"
    using sys out blk by (simp add: parse_ip_config_posix_def Let_def snd_flush case_prod_beta)
  from blk have "\<not> startswith header [CHR 0x09]"
    and "\<forall>l \<in> set body. startswith l [CHR 0x09]"
    and "later = [] \<or> \<not> startswith (hd later) [CHR 0x09]"
    by blast+
  then show "parse_ip_config_posix h =
               snd (flush (fold bsd_line earlier (empty_dict, [])))
               @ filter (\<lambda>a. a \<noteq> empty_dict)
                   [\<lparr>name = m_ifname header,
                     mac = (case List.map_filter (re_search m_ether) (header # body) of
                              [] \<Rightarrow> None | g # gs \<Rightarrow> Some (last (g # gs))),
                     ipv4 = (case List.map_filter (re_search m_inet) body of
                               [] \<Rightarrow> None | x # xs \<Rightarrow> Some (x # xs)),
                     ipv6 = (case List.map_filter (re_search m_inet6) body of
                               [] \<Rightarrow> None | x # xs \<Rightarrow> Some (x # xs))\<rparr>]
               @ snd (flush (fold bsd_line later (empty_dict, [])))"
    unfolding res by (rule bsd_block_entry)
qed


text \<open>
  Claim C3 as stated fails: the Linux interface \<^verbatim>\<open>wlan0\<close> occurs only in a line of the
  family \<^verbatim>\<open>mpls\<close>, and the macOS interface \<^verbatim>\<open>gif0\<close> has neither MAC nor address; both
  are returned, with the name alone.
\<close>

theorem posix_entry_without_address_counterexample:
  "\<lparr>name = Some ''wlan0'', mac = None, ipv4 = None, ipv6 = None\<rparr>
     \<in> set (parse_ip_config_posix (example_host ''Linux'' [(''ip -o addr show'',
          ''1: lo    inet 127.0.0.1/8 scope host lo\<newline>'' @
          ''3: wlan0    mpls 16 dev wlan0'')]))
   \<and> \<lparr>name = Some ''gif0'', mac = None, ipv4 = None, ipv6 = None\<rparr>
     \<in> set (parse_ip_config_posix (example_host ''Darwin'' [(''ifconfig -a'',
          ''lo0: flags=8049<UP,LOOPBACK,RUNNING,MULTICAST> mtu 16384\<newline>'' @
          [CHR 0x09] @ ''inet 127.0.0.1 netmask 0xff000000\<newline>'' @
          ''gif0: flags=8010<POINTOPOINT,MULTICAST> mtu 1280'')]))"
  by code_simp

text \<open>
  The Linux host of the counterexample: the second entry is \<^verbatim>\<open>wlan0\<close> with the name
  alone. A macOS host with three blocks: the block of \<^verbatim>\<open>gif0\<close>, a header with nothing
  else, gives its entry between the one of \<^verbatim>\<open>lo0\<close> and the one of \<^verbatim>\<open>en0\<close>.
\<close>

theorem posix_entries_included_witness:
  "parse_ip_config_posix (example_host ''Linux'' [(''ip -o addr show'',
        ''1: lo    inet 127.0.0.1/8 scope host lo\<newline>'' @
        ''3: wlan0    mpls 16 dev wlan0'')]) ! 1
     = \<lparr>name = Some ''wlan0'', mac = None, ipv4 = None, ipv6 = None\<rparr>
   \<and> parse_ip_config_posix (example_host ''Darwin'' [(''ifconfig -a'',
        ''lo0: flags=8049<UP,LOOPBACK,RUNNING,MULTICAST> mtu 16384\<newline>'' @
        [CHR 0x09] @ ''inet 127.0.0.1 netmask 0xff000000\<newline>'' @
        ''gif0: flags=8010<POINTOPOINT,MULTICAST> mtu 1280\<newline>'' @
        ''en0: flags=8863<UP,BROADCAST,SMART,RUNNING,SIMPLEX,MULTICAST> mtu 1500\<newline>'' @
        [CHR 0x09] @ ''ether aa:bb:cc:dd:ee:01\<newline>'' @
        [CHR 0x09] @ ''inet6 fe80::1%en0 prefixlen 64 scopeid 0x4\<newline>'' @
        [CHR 0x09] @ ''inet 192.168.1.2 netmask 0xffffff00 broadcast 192.168.1.255'')])
     = [\<lparr>name = Some ''lo0'', mac = None, ipv4 = Some [''127.0.0.1''], ipv6 = None\<rparr>,
        \<lparr>name = Some ''gif0'', mac = None, ipv4 = None, ipv6 = None\<rparr>,
        \<lparr>name = Some ''en0'', mac = Some ''aa:bb:cc:dd:ee:01'',
          ipv4 = Some [''192.168.1.2''], ipv6 = Some [''fe80::1'']\<rparr>]"
proof -
  let ?l = "example_host ''Linux'' [(''ip -o addr show'',
        ''1: lo    inet 127.0.0.1/8 scope host lo\<newline>'' @
        ''3: wlan0    mpls 16 dev wlan0'')]"
  let ?d = "example_host ''Darwin'' [(''ifconfig -a'',
        ''lo0: flags=8049<UP,LOOPBACK,RUNNING,MULTICAST> mtu 16384\<newline>'' @
        [CHR 0x09] @ ''inet 127.0.0.1 netmask 0xff000000\<newline>'' @
        ''gif0: flags=8010<POINTOPOINT,MULTICAST> mtu 1280\<newline>'' @
        ''en0: flags=8863<UP,BROADCAST,SMART,RUNNING,SIMPLEX,MULTICAST> mtu 1500\<newline>'' @
        [CHR 0x09] @ ''ether aa:bb:cc:dd:ee:01\<newline>'' @
        [CHR 0x09] @ ''inet6 fe80::1%en0 prefixlen 64 scopeid 0x4\<newline>'' @
        [CHR 0x09] @ ''inet 192.168.1.2 netmask 0xffffff00 broadcast 192.168.1.255'')]"
  let ?earlier = "[''lo0: flags=8049<UP,LOOPBACK,RUNNING,MULTICAST> mtu 16384'',
         [CHR 0x09] @ ''inet 127.0.0.1 netmask 0xff000000'']"
  let ?header = "''gif0: flags=8010<POINTOPOINT,MULTICAST> mtu 1280''"
  let ?later = "[''en0: flags=8863<UP,BROADCAST,SMART,RUNNING,SIMPLEX,MULTICAST> mtu 1500'',
         [CHR 0x09] @ ''ether aa:bb:cc:dd:ee:01'',
         [CHR 0x09] @ ''inet6 fe80::1%en0 prefixlen 64 scopeid 0x4'',
         [CHR 0x09] @ ''inet 192.168.1.2 netmask 0xffffff00 broadcast 192.168.1.255'']"
  have sl: "system ?l = ''linux''" and sd: "system ?d \<noteq> ''linux''"
    by code_simp+
  have mem: "parse_ip_config_posix ?l ! 1 \<in> set (parse_ip_config_posix ?l)"
    by code_simp
  have nm: "name (parse_ip_config_posix ?l ! 1) = Some ''wlan0''"
    by code_simp
  note linux = posix_entries_included [of ?l, THEN conjunct1, THEN mp, OF sl,
      THEN conjunct2, THEN conjunct2, THEN bspec, OF mem, THEN spec, THEN mp, OF nm]
  have a: "parse_ip_config_posix ?l ! 1
      = \<lparr>name = Some ''wlan0'', mac = None, ipv4 = None, ipv6 = None\<rparr>"
    unfolding linux by code_simp
  have blk: "splitlines (run_command ?d ''ifconfig -a'') = ?earlier @ ?header # [] @ ?later
      \<and> \<not> startswith ?header [CHR 0x09]
      \<and> (\<forall>l \<in> set []. startswith l [CHR 0x09])
      \<and> (?later = [] \<or> \<not> startswith (hd ?later) [CHR 0x09])"
    by code_simp
  note bsd = posix_entries_included [of ?d, THEN conjunct2, THEN mp, OF sd, THEN conjunct2,
      THEN spec, THEN spec, THEN spec, THEN spec, THEN mp, OF blk]
  have b: "parse_ip_config_posix ?d
     = [\<lparr>name = Some ''lo0'', mac = None, ipv4 = Some [''127.0.0.1''], ipv6 = None\<rparr>,
        \<lparr>name = Some ''gif0'', mac = None, ipv4 = None, ipv6 = None\<rparr>,
        \<lparr>name = Some ''en0'', mac = Some ''aa:bb:cc:dd:ee:01'',
          ipv4 = Some [''192.168.1.2''], ipv6 = Some [''fe80::1'']\<rparr>]"
    unfolding bsd by code_simp
  from a b show ?thesis
    by (rule conjI)
qed

subsection \<open>Which MAC is recorded\<close>

text \<open>
  Claim C4, amended. The claim says that on Linux the first MAC of an interface is kept; the
  code assigns the MAC at every matching line, as the BSD branch does. What holds: on Linux
  the MAC of a returned interface is the one of the last line of the family \<^verbatim>\<open>link\<close> with
  the name of the interface in which the pattern finds a MAC, and absent when there is no
  such line; on BSD and macOS every block (a header line and the lines that follow it, each
  starting with a tab) in which the pattern finds a MAC gives an entry, placed after the
  entries of the earlier lines, with the name of the header and the last \<^verbatim>\<open>ether\<close> match
  of the lines of the block.
\<close>

theorem last_mac_wins:
  "(system h = ''linux'' \<longrightarrow>
      (\<forall>a \<in> set (parse_ip_config_posix h). \<forall>n. name a = Some n \<longrightarrow>
         mac a =
           (case List.map_filter (re_search m_link_mac)
                   (filter (\<lambda>l. 4 \<le> length (split_ws l) \<and> split_ws l ! 1 = n
                                \<and> split_ws l ! 2 = ''link'')
                      (splitlines (run_command h ''ip -o addr show''))) of
              [] \<Rightarrow> None
            | g # gs \<Rightarrow> Some (last (g # gs)))))
   \<and> (system h \<noteq> ''linux'' \<longrightarrow>
      (\<forall>earlier header body later.
         splitlines (run_command h ''ifconfig -a'') = earlier @ header # body @ later
         \<and> \<not> startswith header [CHR 0x09]
         \<and> (\<forall>l \<in> set body. startswith l [CHR 0x09])
         \<and> (later = [] \<or> \<not> startswith (hd later) [CHR 0x09])
         \<and> List.map_filter (re_search m_ether) (header # body) \<noteq> []
         \<longrightarrow> (\<exists>a after.
               parse_ip_config_posix h =
                 snd (flush (fold bsd_line earlier (empty_dict, []))) @ a # after
               \<and> name a = m_ifname header
               \<and> mac a = Some (last (List.map_filter (re_search m_ether) (header # body))))))"
proof (intro conjI impI allI ballI)
  fix a n
  assume sys: "system h = ''linux''"
    and a: "a \<in> set (parse_ip_config_posix h)" and n: "name a = Some n"
  let ?ls = "splitlines (run_command h ''ip -o addr show'')"
  have res: "parse_ip_config_posix h = map snd (fold linux_line ?ls [])"
    using sys by (cases "run_command h ''ip -o addr show'' = []")
      (simp_all add: parse_ip_config_posix_def)
  from a obtain k where k: "map_of (fold linux_line ?ls []) k = Some a" "name a = Some k"
    unfolding res using linux_result_entry by blast
  with n have kn: "k = n"
    by simp
  from fold_linux_line_mac [of ?ls "[]" n] k(1)
  show "mac a =
           (case List.map_filter (re_search m_link_mac)
                   (filter (\<lambda>l. 4 \<le> length (split_ws l) \<and> split_ws l ! 1 = n
                                \<and> split_ws l ! 2 = ''link'') ?ls) of
              [] \<Rightarrow> None
            | g # gs \<Rightarrow> Some (last (g # gs)))"
    unfolding kn by (simp del: One_nat_def split: list.splits)
next
  fix earlier header body later
  assume sys: "system h \<noteq> ''linux''"
    and blk: "splitlines (run_command h ''ifconfig -a'') = earlier @ header # body @ later
         \<and> \<not> startswith header [CHR 0x09]
         \<and> (\<forall>l \<in> set body. startswith l [CHR 0x09])
         \<and> (later = [] \<or> \<not> startswith (hd later) [CHR 0x09])
         \<and> List.map_filter (re_search m_ether) (header # body) \<noteq> []"
  then have out: "run_command h ''ifconfig -a'' \<noteq> []"
    by auto
  have res: "parse_ip_config_posix h =
      (case fold bsd_line (earlier @ header # body @ later) (empty_dict, []) of
         (adapter, interfaces) \<Rightarrow>
           if adapter \<noteq> empty_dict then interfaces @ [adapter] else interfaces)"
    using sys out blk by (simp add: parse_ip_config_posix_def Let_def)
  from blk have "\<not> startswith header [CHR 0x09]"
    and "\<forall>l \<in> set body. startswith l [CHR 0x09]"
    and "later = [] \<or> \<not> startswith (hd later) [CHR 0x09]"
    and "List.map_filter (re_search m_ether) (header # body) \<noteq> []"
    by blast+
  then show "\<exists>a after.
       parse_ip_config_posix h =
         snd (flush (fold bsd_line earlier (empty_dict, []))) @ a # after
       \<and> name a = m_ifname header
       \<and> mac a = Some (last (List.map_filter (re_search m_ether) (header # body)))"
    unfolding res by (rule bsd_block)
qed

text \<open>
  Claim C4 as stated fails: two \<^verbatim>\<open>link\<close> lines of \<^verbatim>\<open>eth0\<close>, each with a MAC the
  pattern finds; the interface has the MAC of the second line.
\<close>

theorem linux_first_mac_wins_counterexample:
  "re_search m_link_mac ''2: eth0    link link/ether aa:aa:aa:aa:aa:aa brd ff:ff:ff:ff:ff:ff''
     = Some ''aa:aa:aa:aa:aa:aa''
   \<and> re_search m_link_mac ''2: eth0    link link/ether bb:bb:bb:bb:bb:bb brd ff:ff:ff:ff:ff:ff''
     = Some ''bb:bb:bb:bb:bb:bb''
   \<and> parse_ip_config_posix (example_host ''Linux'' [(''ip -o addr show'',
        ''2: eth0    link link/ether aa:aa:aa:aa:aa:aa brd ff:ff:ff:ff:ff:ff\<newline>'' @
        ''2: eth0    link link/ether bb:bb:bb:bb:bb:bb brd ff:ff:ff:ff:ff:ff'')])
     = [\<lparr>name = Some ''eth0'', mac = Some ''bb:bb:bb:bb:bb:bb'', ipv4 = None, ipv6 = None\<rparr>]"
  by code_simp


text \<open>
  The Linux host of the counterexample, and a macOS host whose block of \<^verbatim>\<open>en0\<close>, between
  two other blocks, has two \<^verbatim>\<open>ether\<close> lines.
\<close>

theorem last_mac_wins_witness:
  "mac (hd (parse_ip_config_posix (example_host ''Linux'' [(''ip -o addr show'',
        ''2: eth0    link link/ether aa:aa:aa:aa:aa:aa brd ff:ff:ff:ff:ff:ff\<newline>'' @
        ''2: eth0    link link/ether bb:bb:bb:bb:bb:bb brd ff:ff:ff:ff:ff:ff'')])))
     = Some ''bb:bb:bb:bb:bb:bb''
   \<and> (\<exists>a after. parse_ip_config_posix (example_host ''Darwin'' [(''ifconfig -a'',
        ''lo0: flags=8049<UP,LOOPBACK,RUNNING,MULTICAST> mtu 16384\<newline>'' @
        [CHR 0x09] @ ''inet 127.0.0.1 netmask 0xff000000\<newline>'' @
        ''en0: flags=8863<UP,BROADCAST,SMART,RUNNING,SIMPLEX,MULTICAST> mtu 1500\<newline>'' @
        [CHR 0x09] @ ''ether aa:bb:cc:dd:ee:01\<newline>'' @
        [CHR 0x09] @ ''inet 192.168.1.2 netmask 0xffffff00 broadcast 192.168.1.255\<newline>'' @
        [CHR 0x09] @ ''ether aa:bb:cc:dd:ee:02\<newline>'' @
        ''gif0: flags=8010<POINTOPOINT,MULTICAST> mtu 1280'')])
       = [\<lparr>name = Some ''lo0'', mac = None, ipv4 = Some [''127.0.0.1''], ipv6 = None\<rparr>]
         @ a # after
       \<and> name a = Some ''en0'' \<and> mac a = Some ''aa:bb:cc:dd:ee:02'')"
proof -
  let ?l = "example_host ''Linux'' [(''ip -o addr show'',
        ''2: eth0    link link/ether aa:aa:aa:aa:aa:aa brd ff:ff:ff:ff:ff:ff\<newline>'' @
        ''2: eth0    link link/ether bb:bb:bb:bb:bb:bb brd ff:ff:ff:ff:ff:ff'')]"
  let ?d = "example_host ''Darwin'' [(''ifconfig -a'',
        ''lo0: flags=8049<UP,LOOPBACK,RUNNING,MULTICAST> mtu 16384\<newline>'' @
        [CHR 0x09] @ ''inet 127.0.0.1 netmask 0xff000000\<newline>'' @
        ''en0: flags=8863<UP,BROADCAST,SMART,RUNNING,SIMPLEX,MULTICAST> mtu 1500\<newline>'' @
        [CHR 0x09] @ ''ether aa:bb:cc:dd:ee:01\<newline>'' @
        [CHR 0x09] @ ''inet 192.168.1.2 netmask 0xffffff00 broadcast 192.168.1.255\<newline>'' @
        [CHR 0x09] @ ''ether aa:bb:cc:dd:ee:02\<newline>'' @
        ''gif0: flags=8010<POINTOPOINT,MULTICAST> mtu 1280'')]"
  let ?earlier = "[''lo0: flags=8049<UP,LOOPBACK,RUNNING,MULTICAST> mtu 16384'',
         [CHR 0x09] @ ''inet 127.0.0.1 netmask 0xff000000'']"
  let ?header = "''en0: flags=8863<UP,BROADCAST,SMART,RUNNING,SIMPLEX,MULTICAST> mtu 1500''"
  let ?body = "[[CHR 0x09] @ ''ether aa:bb:cc:dd:ee:01'',
           [CHR 0x09] @ ''inet 192.168.1.2 netmask 0xffffff00 broadcast 192.168.1.255'',
           [CHR 0x09] @ ''ether aa:bb:cc:dd:ee:02'']"
  let ?later = "[''gif0: flags=8010<POINTOPOINT,MULTICAST> mtu 1280'']"
  have sl: "system ?l = ''linux''" and sd: "system ?d \<noteq> ''linux''"
    by code_simp+
  have mem: "hd (parse_ip_config_posix ?l) \<in> set (parse_ip_config_posix ?l)"
    by code_simp
  have nm: "name (hd (parse_ip_config_posix ?l)) = Some ''eth0''"
    by code_simp
  note linux = last_mac_wins [of ?l, THEN conjunct1, THEN mp, OF sl, THEN bspec, OF mem,
      THEN spec, THEN mp, OF nm]
  have a: "mac (hd (parse_ip_config_posix ?l)) = Some ''bb:bb:bb:bb:bb:bb''"
    unfolding linux by code_simp
  have blk: "splitlines (run_command ?d ''ifconfig -a'') = ?earlier @ ?header # ?body @ ?later
      \<and> \<not> startswith ?header [CHR 0x09]
      \<and> (\<forall>l \<in> set ?body. startswith l [CHR 0x09])
      \<and> (?later = [] \<or> \<not> startswith (hd ?later) [CHR 0x09])
      \<and> List.map_filter (re_search m_ether) (?header # ?body) \<noteq> []"
    by code_simp
  note bsd = last_mac_wins [of ?d, THEN conjunct2, THEN mp, OF sd, THEN spec, THEN spec,
      THEN spec, THEN spec, THEN mp, OF blk]
  have ev: "snd (flush (fold bsd_line ?earlier (empty_dict, [])))
        = [\<lparr>name = Some ''lo0'', mac = None, ipv4 = Some [''127.0.0.1''], ipv6 = None\<rparr>]"
    "m_ifname ?header = Some ''en0''"
    "Some (last (List.map_filter (re_search m_ether) (?header # ?body)))
        = Some ''aa:bb:cc:dd:ee:02''"
    by code_simp+
  have b: "\<exists>a after. parse_ip_config_posix ?d
       = [\<lparr>name = Some ''lo0'', mac = None, ipv4 = Some [''127.0.0.1''], ipv6 = None\<rparr>]
         @ a # after
       \<and> name a = Some ''en0'' \<and> mac a = Some ''aa:bb:cc:dd:ee:02''"
    using bsd unfolding ev .
  from a b show ?thesis
    by (rule conjI)
qed

end
